theory Spec2Isabelle
  imports Main
begin

section \<open>Python values and built-ins used by the scan manager\<close>

text \<open>
  The values that reach the scan manager are decoded JSON: \<open>None\<close>, booleans, unbounded
  integers, strings, lists and dictionaries with string keys. Floating-point numbers are
  outside the embedding. Strings are byte lists; the built-ins below are the ASCII
  behaviour of the interpreter.
\<close>

datatype pyval =
    PNone
  | PBool bool
  | PInt int
  | PStr string
  | PList "pyval list"
  | PDict "(string \<times> pyval) list"

type_synonym pydict = "(string \<times> pyval) list"

text \<open>
  An exception carries its message when the text is written in this code base; the
  message texts of the interpreter and of the libraries are not modelled (\<open>Opaque\<close>).
  Every exception class below derives from \<^verbatim>\<open>Exception\<close>.
\<close>

datatype message = Msg string | Opaque

datatype error =
    ValueError message
  | TypeError message
  | AttributeError message
  | KeyError message
  | TimeoutError message
  | RequestException message
  | DockerNotFound message
  | DockerException message
  | OSError message
  | Exception message

text \<open>\<^verbatim>\<open>d.get(k, default)\<close> on a dictionary.\<close>

definition dict_get :: "pydict \<Rightarrow> string \<Rightarrow> pyval \<Rightarrow> pyval" where
  "dict_get d k dflt = (case map_of d k of None \<Rightarrow> dflt | Some v \<Rightarrow> v)"

text \<open>Truth value of an object in a condition.\<close>

fun truthy :: "pyval \<Rightarrow> bool" where
  "truthy PNone = False"
| "truthy (PBool b) = b"
| "truthy (PInt i) = (i \<noteq> 0)"
| "truthy (PStr s) = (s \<noteq> [])"
| "truthy (PList xs) = (xs \<noteq> [])"
| "truthy (PDict kvs) = (kvs \<noteq> [])"

text \<open>\<^verbatim>\<open>hash(x)\<close> raises \<open>TypeError\<close> on lists and dictionaries.\<close>

fun hashable :: "pyval \<Rightarrow> bool" where
  "hashable (PList xs) = False"
| "hashable (PDict kvs) = False"
| "hashable v = True"

text \<open>
  \<^verbatim>\<open>a == b\<close> on hashable values: \<open>True == 1\<close> and \<open>False == 0\<close>, every other
  pair of values of different types is unequal. \<open>eq_class\<close> picks the representative.
\<close>

fun eq_class :: "pyval \<Rightarrow> pyval" where
  "eq_class (PBool b) = PInt (if b then 1 else 0)"
| "eq_class v = v"

subsection \<open>\<^verbatim>\<open>str\<close> and \<open>repr\<close>\<close>

definition digit_char :: "nat \<Rightarrow> char" where
  "digit_char d = ''0123456789abcdef'' ! (d mod 16)"

fun show_nat :: "nat \<Rightarrow> string" where
  "show_nat n = (if n < 10 then [digit_char n] else show_nat (n div 10) @ [digit_char (n mod 10)])"

declare show_nat.simps [simp del]

definition show_int :: "int \<Rightarrow> string" where
  "show_int i = (if i < 0 then CHR ''-'' # show_nat (nat (- i)) else show_nat (nat i))"

definition escape_char :: "char \<Rightarrow> char \<Rightarrow> string" where
  "escape_char q c =
     (if c = CHR 0x5C then [CHR 0x5C, CHR 0x5C]
      else if c = q then [CHR 0x5C, q]
      else if c = CHR 0x09 then [CHR 0x5C, CHR ''t'']
      else if c = CHR 0x0A then [CHR 0x5C, CHR ''n'']
      else if c = CHR 0x0D then [CHR 0x5C, CHR ''r'']
      else if (of_char c :: nat) < 32 \<or> (of_char c :: nat) = 127
        then [CHR 0x5C, CHR ''x'', digit_char (of_char c div 16), digit_char (of_char c mod 16)]
      else [c])"

definition repr_str :: "string \<Rightarrow> string" where
  "repr_str s =
     (let q = (if CHR 0x27 \<in> set s \<and> CHR 0x22 \<notin> set s then CHR 0x22 else CHR 0x27)
      in q # concat (map (escape_char q) s) @ [q])"

fun join_comma :: "string list \<Rightarrow> string" where
  "join_comma [] = []"
| "join_comma [x] = x"
| "join_comma (x # y # ys) = x @ '', '' @ join_comma (y # ys)"

fun py_repr :: "pyval \<Rightarrow> string" where
  "py_repr PNone = ''None''"
| "py_repr (PBool b) = (if b then ''True'' else ''False'')"
| "py_repr (PInt i) = show_int i"
| "py_repr (PStr s) = repr_str s"
| "py_repr (PList xs) = ''['' @ join_comma (map py_repr xs) @ '']''"
| "py_repr (PDict kvs) =
     ''{'' @ join_comma (map (\<lambda>kv. repr_str (fst kv) @ '': '' @ py_repr (snd kv)) kvs) @ ''}''"

fun py_str :: "pyval \<Rightarrow> string" where
  "py_str (PStr s) = s"
| "py_str v = py_repr v"

subsection \<open>\<^verbatim>\<open>int\<close>\<close>

text \<open>
  \<^verbatim>\<open>int(x)\<close>: integers and booleans convert, a string is parsed as a decimal literal
  (surrounding whitespace, an optional sign, digits with single underscores between
  them), anything else is a \<open>TypeError\<close>. Whitespace is the ASCII whitespace (tab, line
  feed, vertical tab, form feed, carriage return, space) and digits are the ASCII digits;
  digits and whitespace outside ASCII and the interpreter's configurable limit on the
  number of digits are not modelled.
\<close>

definition is_space :: "char \<Rightarrow> bool" where
  "is_space c = ((of_char c :: nat) \<in> {9, 10, 11, 12, 13, 32})"

definition strip :: "string \<Rightarrow> string" where
  "strip s = rev (dropWhile is_space (rev (dropWhile is_space s)))"

definition is_digit :: "char \<Rightarrow> bool" where
  "is_digit c = (c \<in> set ''0123456789'')"

definition digit_val :: "char \<Rightarrow> int" where
  "digit_val c = int (of_char c) - 48"

fun digits_ok :: "string \<Rightarrow> bool" where
  "digits_ok [] = False"
| "digits_ok [c] = is_digit c"
| "digits_ok (c # d # cs) =
     (is_digit c \<and> (if d = CHR ''_'' then cs \<noteq> [] \<and> digits_ok cs else digits_ok (d # cs)))"

definition digits_value :: "string \<Rightarrow> int" where
  "digits_value s = foldl (\<lambda>acc c. if c = CHR ''_'' then acc else acc * 10 + digit_val c) 0 s"

definition int_of_str :: "string \<Rightarrow> error + int" where
  "int_of_str s =
     (let t = strip s;
          neg = (t \<noteq> [] \<and> hd t = CHR ''-'');
          body = (if t \<noteq> [] \<and> (hd t = CHR ''-'' \<or> hd t = CHR ''+'') then tl t else t)
      in if digits_ok body then Inr (if neg then - digits_value body else digits_value body)
         else Inl (ValueError Opaque))"

fun py_int :: "pyval \<Rightarrow> error + int" where
  "py_int (PInt i) = Inr i"
| "py_int (PBool b) = Inr (if b then 1 else 0)"
| "py_int (PStr s) = int_of_str s"
| "py_int v = Inl (TypeError Opaque)"

subsection \<open>String methods\<close>

definition lower_char :: "char \<Rightarrow> char" where
  "lower_char c =
     (if 65 \<le> (of_char c :: nat) \<and> (of_char c :: nat) \<le> 90
      then char_of (of_char c + 32 :: nat) else c)"

definition lower :: "string \<Rightarrow> string" where
  "lower s = map lower_char s"

definition startswith :: "string \<Rightarrow> string \<Rightarrow> bool" where
  "startswith s p = (take (length p) s = p)"

text \<open>\<^verbatim>\<open>k in s\<close> for strings: \<open>k\<close> occurs in \<open>s\<close> as a contiguous run.\<close>

fun str_contains :: "string \<Rightarrow> string \<Rightarrow> bool" where
  "str_contains [] k = (k = [])"
| "str_contains (c # cs) k = (startswith (c # cs) k \<or> str_contains cs k)"

section \<open>ScanResultParser\<close>

text \<open>
  Alerts and findings are dictionaries with string keys (\<^verbatim>\<open>Dict[str, Any]\<close>), kept as
  association lists; a lookup finds the first binding of a key.
\<close>

definition SEVERITY_MAP :: "(string \<times> string) list" where
  "SEVERITY_MAP =
     [(''0'', ''info''), (''1'', ''low''), (''2'', ''medium''), (''3'', ''high''),
      (''4'', ''critical'')]"

definition CONFIDENCE_MAP :: "(string \<times> string) list" where
  "CONFIDENCE_MAP =
     [(''0'', ''false_positive''), (''1'', ''low''), (''2'', ''medium''), (''3'', ''high''),
      (''4'', ''confirmed'')]"

text \<open>\<^verbatim>\<open>table.get(key, default)\<close> on the two class-level tables.\<close>

definition table_get :: "(string \<times> string) list \<Rightarrow> string \<Rightarrow> string \<Rightarrow> string" where
  "table_get t k dflt = (case map_of t k of None \<Rightarrow> dflt | Some v \<Rightarrow> v)"

definition extract_cwe :: "pydict \<Rightarrow> error + pyval" where
  "extract_cwe alert =
     (let cwe_id = dict_get alert ''cweid'' (PStr [])
      in if truthy cwe_id then
           (case cwe_id of
              PStr s \<Rightarrow> if \<not> startswith s ''CWE-'' then Inr (PStr (''CWE-'' @ s)) else Inr (PStr s)
            | _ \<Rightarrow> Inl (AttributeError Opaque))
         else Inr (PStr []))"

definition owasp_mappings :: "(string \<times> string) list" where
  "owasp_mappings =
     [(''injection'', ''A03:2021 - Injection''),
      (''sql injection'', ''A03:2021 - Injection''),
      (''xss'', ''A03:2021 - Injection''),
      (''cross site scripting'', ''A03:2021 - Injection''),
      (''authentication'', ''A07:2021 - Identification and Authentication Failures''),
      (''session'', ''A07:2021 - Identification and Authentication Failures''),
      (''authorization'', ''A01:2021 - Broken Access Control''),
      (''access control'', ''A01:2021 - Broken Access Control''),
      (''sensitive data'', ''A02:2021 - Cryptographic Failures''),
      (''encryption'', ''A02:2021 - Cryptographic Failures''),
      (''xxe'', ''A05:2021 - Security Misconfiguration''),
      (''misconfiguration'', ''A05:2021 - Security Misconfiguration''),
      (''vulnerable component'', ''A06:2021 - Vulnerable and Outdated Components''),
      (''outdated'', ''A06:2021 - Vulnerable and Outdated Components''),
      (''logging'', ''A09:2021 - Security Logging and Monitoring Failures''),
      (''monitoring'', ''A09:2021 - Security Logging and Monitoring Failures''),
      (''ssrf'', ''A10:2021 - Server-Side Request Forgery''),
      (''csrf'', ''A01:2021 - Broken Access Control'')]"

fun first_category :: "(string \<times> string) list \<Rightarrow> string \<Rightarrow> string" where
  "first_category [] name = ''Unknown''"
| "first_category ((keyword, category) # rest) name =
     (if str_contains name keyword then category else first_category rest name)"

definition map_owasp_category :: "pydict \<Rightarrow> error + pyval" where
  "map_owasp_category alert =
     (case dict_get alert ''name'' (PStr []) of
        PStr s \<Rightarrow> Inr (PStr (first_category owasp_mappings (lower s)))
      | _ \<Rightarrow> Inl (AttributeError Opaque))"

text \<open>
  \<open>_parse_alert\<close> on a dictionary. The entries of the dictionary literal are evaluated
  in the order they are written, so the first failing conversion is the exception that
  is raised.
\<close>

definition parse_alert_dict :: "pydict \<Rightarrow> error + pydict" where
  "parse_alert_dict alert =
     (let risk = dict_get alert ''risk'' (PStr ''0'');
          severity = table_get SEVERITY_MAP (py_str risk) ''info'';
          confidence_level = dict_get alert ''confidence'' (PStr ''0'');
          confidence = table_get CONFIDENCE_MAP (py_str confidence_level) ''low''
      in case py_int risk of Inl e \<Rightarrow> Inl e | Inr risk_code \<Rightarrow>
         (case py_int confidence_level of Inl e \<Rightarrow> Inl e | Inr confidence_code \<Rightarrow>
         (case extract_cwe alert of Inl e \<Rightarrow> Inl e | Inr cwe_id \<Rightarrow>
         (case map_owasp_category alert of Inl e \<Rightarrow> Inl e | Inr owasp_category \<Rightarrow>
            Inr [(''name'', dict_get alert ''name'' (PStr ''Unknown Vulnerability'')),
                 (''type'', dict_get alert ''alert'' (dict_get alert ''name'' (PStr ''Unknown''))),
                 (''severity'', PStr severity),
                 (''confidence'', PStr confidence),
                 (''risk_code'', PInt risk_code),
                 (''confidence_code'', PInt confidence_code),
                 (''cwe_id'', cwe_id),
                 (''owasp_category'', owasp_category),
                 (''url'', dict_get alert ''url'' (PStr [])),
                 (''method'', dict_get alert ''method'' (PStr [])),
                 (''parameter'', dict_get alert ''param'' (PStr [])),
                 (''attack'', dict_get alert ''attack'' (PStr [])),
                 (''evidence'', dict_get alert ''evidence'' (PStr [])),
                 (''other_info'', dict_get alert ''other'' (PStr [])),
                 (''description'', dict_get alert ''description'' (PStr [])),
                 (''solution'', dict_get alert ''solution'' (PStr [])),
                 (''reference'', dict_get alert ''reference'' (PStr [])),
                 (''plugin_id'', dict_get alert ''pluginId'' (PStr [])),
                 (''alert_ref'', dict_get alert ''alertRef'' (PStr [])),
                 (''message_id'', dict_get alert ''messageId'' (PStr [])),
                 (''input_vector'', dict_get alert ''inputVector'' (PStr [])),
                 (''status'', PStr ''new'')]))))"

text \<open>
  An element of the alert list that is not a dictionary has no \<^verbatim>\<open>get\<close>: the first
  statement of \<open>_parse_alert\<close> raises \<open>AttributeError\<close>.
\<close>

definition parse_alert :: "pyval \<Rightarrow> error + pydict" where
  "parse_alert alert =
     (case alert of PDict d \<Rightarrow> parse_alert_dict d | _ \<Rightarrow> Inl (AttributeError Opaque))"

text \<open>
  The statistics dictionary, keyed by Python values as \<^verbatim>\<open>statistics[severity]\<close> is.
\<close>

type_synonym statistics = "pyval \<rightharpoonup> int"

definition initial_statistics :: statistics where
  "initial_statistics =
     [PStr ''critical'' \<mapsto> 0, PStr ''high'' \<mapsto> 0, PStr ''medium'' \<mapsto> 0, PStr ''low'' \<mapsto> 0,
      PStr ''info'' \<mapsto> 0, PStr ''total'' \<mapsto> 0]"

record parse_result =
  vulnerabilities :: "pydict list"
  statistics :: statistics

text \<open>
  The loop body of \<open>parse_alerts\<close>. Every exception inside the \<^verbatim>\<open>try\<close> is caught and
  the loop continues with whatever the body has already mutated: a failing \<open>_parse_alert\<close>
  leaves both the list and the counters as they were.
\<close>

definition parse_step :: "parse_result \<Rightarrow> pyval \<Rightarrow> parse_result" where
  "parse_step r alert =
     (case parse_alert alert of
        Inl e \<Rightarrow> r
      | Inr vuln \<Rightarrow>
          (let r1 = r\<lparr>vulnerabilities := vulnerabilities r @ [vuln]\<rparr>;
               severity = dict_get vuln ''severity'' (PStr ''info'')
           in if \<not> hashable severity then r1
              else
                (let st = (statistics r1)
                       (eq_class severity \<mapsto>
                          (case statistics r1 (eq_class severity) of None \<Rightarrow> 0 | Some n \<Rightarrow> n) + 1)
                 in case st (PStr ''total'') of
                      None \<Rightarrow> r1\<lparr>statistics := st\<rparr>
                    | Some t \<Rightarrow> r1\<lparr>statistics := st(PStr ''total'' \<mapsto> t + 1)\<rparr>)))"

definition parse_alerts :: "pyval list \<Rightarrow> parse_result" where
  "parse_alerts alerts =
     foldl parse_step \<lparr>vulnerabilities = [], statistics = initial_statistics\<rparr> alerts"

text \<open>The invariant of the counters: all six are present and the total is the sum.\<close>

definition stats_inv :: "statistics \<Rightarrow> bool" where
  "stats_inv st =
     (\<exists>c h m l i.
        st (PStr ''critical'') = Some c \<and> st (PStr ''high'') = Some h \<and>
        st (PStr ''medium'') = Some m \<and> st (PStr ''low'') = Some l \<and>
        st (PStr ''info'') = Some i \<and> st (PStr ''total'') = Some (c + h + m + l + i))"

text \<open>
  The two alerts of the specification's end-to-end example, one the normaliser rejects,
  and three findings of which the first and the last share their key.
\<close>

definition example_alerts :: "pyval list" where
  "example_alerts =
     [PDict [(''name'', PStr ''SQL Injection''), (''risk'', PStr ''4''), (''confidence'', PStr ''3'')],
      PDict [(''name'', PStr ''Cookie No HttpOnly Flag''), (''risk'', PStr ''1''),
             (''confidence'', PStr ''1'')]]"

definition textual_alert :: pydict where
  "textual_alert = [(''name'', PStr ''SQL Injection''), (''risk'', PStr ''High'')]"

definition example_findings :: "pydict list" where
  "example_findings =
     [[(''type'', PStr ''xss''), (''url'', PStr ''http://t/a''), (''parameter'', PStr ''q''),
       (''confidence'', PStr ''medium'')],
      [(''type'', PStr ''sqli''), (''url'', PStr ''http://t/a''), (''parameter'', PStr ''q''),
       (''confidence'', PStr ''false_positive'')],
      [(''type'', PStr ''xss''), (''url'', PStr ''http://t/a''), (''parameter'', PStr ''q''),
       (''confidence'', PStr ''low'')]]"

text \<open>
  Findings for \<open>deduplicate\<close>: the third repeats the key of the first, the second and the
  fourth differ from the first in the URL and in the parameter only, the fifth in the type
  only. In the second list the last finding has a list as its URL.
\<close>

definition keyed_findings :: "pydict list" where
  "keyed_findings =
     [[(''type'', PStr ''xss''), (''url'', PStr ''http://t/a''), (''parameter'', PStr ''q''),
       (''evidence'', PStr ''first'')],
      [(''type'', PStr ''xss''), (''url'', PStr ''http://t/b''), (''parameter'', PStr ''q'')],
      [(''type'', PStr ''xss''), (''url'', PStr ''http://t/a''), (''parameter'', PStr ''q''),
       (''evidence'', PStr ''again'')],
      [(''type'', PStr ''xss''), (''url'', PStr ''http://t/a''), (''parameter'', PStr ''r'')],
      [(''type'', PStr ''sqli''), (''url'', PStr ''http://t/a''), (''parameter'', PStr ''q'')]]"

definition unhashable_findings :: "pydict list" where
  "unhashable_findings =
     [[(''type'', PStr ''xss''), (''url'', PStr ''http://t/a''), (''parameter'', PStr ''q'')],
      [(''type'', PStr ''xss''), (''url'', PStr ''http://t/a''), (''parameter'', PStr ''q'')],
      [(''type'', PStr ''xss''), (''url'', PList []), (''parameter'', PStr ''q'')]]"

subsection \<open>\<open>filter_by_confidence\<close>\<close>

definition confidence_order :: "string list" where
  "confidence_order = [''low'', ''medium'', ''high'', ''confirmed'']"

text \<open>\<^verbatim>\<open>xs.index(x)\<close>: the first position of \<open>x\<close>, \<open>ValueError\<close> when it is absent.\<close>

fun list_index :: "string list \<Rightarrow> string \<Rightarrow> error + nat" where
  "list_index [] x = Inl (ValueError Opaque)"
| "list_index (y # ys) x =
     (if y = x then Inr 0
      else case list_index ys x of Inl e \<Rightarrow> Inl e | Inr i \<Rightarrow> Inr (Suc i))"

text \<open>The confidence a finding is filtered on: \<^verbatim>\<open>vuln.get('confidence', 'low')\<close>.\<close>

definition finding_confidence :: "pydict \<Rightarrow> pyval" where
  "finding_confidence vuln = dict_get vuln ''confidence'' (PStr ''low'')"

definition filter_by_confidence :: "pydict list \<Rightarrow> string \<Rightarrow> error + pydict list" where
  "filter_by_confidence vulns min_confidence =
     (if min_confidence \<notin> set confidence_order then Inr vulns
      else case list_index confidence_order min_confidence of
             Inl e \<Rightarrow> Inl e
           | Inr min_index \<Rightarrow>
               Inr (filter (\<lambda>vuln. finding_confidence vuln
                                     \<in> set (map PStr (drop min_index confidence_order)))
                      vulns))"

subsection \<open>\<open>deduplicate\<close>\<close>

type_synonym finding_key = "pyval \<times> pyval \<times> pyval"

definition raw_key :: "pydict \<Rightarrow> finding_key" where
  "raw_key vuln =
     (dict_get vuln ''type'' (PStr []), dict_get vuln ''url'' (PStr []),
      dict_get vuln ''parameter'' (PStr []))"

text \<open>
  A tuple is hashable when its components are, and two tuples are equal when their
  components are. \<open>dedup_key\<close> is the key up to Python's equality, which is what the
  membership test on the set \<open>seen\<close> compares.
\<close>

definition key_hashable :: "finding_key \<Rightarrow> bool" where
  "key_hashable k = (case k of (t, u, p) \<Rightarrow> hashable t \<and> hashable u \<and> hashable p)"

definition dedup_key :: "pydict \<Rightarrow> finding_key" where
  "dedup_key vuln = (case raw_key vuln of (t, u, p) \<Rightarrow> (eq_class t, eq_class u, eq_class p))"

fun dedup_loop :: "finding_key set \<Rightarrow> pydict list \<Rightarrow> pydict list \<Rightarrow> error + pydict list" where
  "dedup_loop seen unique [] = Inr unique"
| "dedup_loop seen unique (vuln # rest) =
     (if \<not> key_hashable (raw_key vuln) then Inl (TypeError Opaque)
      else if dedup_key vuln \<notin> seen
        then dedup_loop (insert (dedup_key vuln) seen) (unique @ [vuln]) rest
      else dedup_loop seen unique rest)"

definition deduplicate :: "pydict list \<Rightarrow> error + pydict list" where
  "deduplicate vulns = dedup_loop {} [] vulns"

text \<open>Applying \<open>deduplicate\<close> to its own result; an exception of the inner call propagates.\<close>

definition deduplicate_twice :: "pydict list \<Rightarrow> error + pydict list" where
  "deduplicate_twice vulns =
     (case deduplicate vulns of Inl e \<Rightarrow> Inl e | Inr unique \<Rightarrow> deduplicate unique)"

text \<open>
  What the loop keeps when no key is unhashable: the findings whose key has not occurred
  before, in order.
\<close>

fun keep_new :: "finding_key set \<Rightarrow> pydict list \<Rightarrow> pydict list" where
  "keep_new seen [] = []"
| "keep_new seen (v # vs) =
     (if dedup_key v \<in> seen then keep_new seen vs
      else v # keep_new (insert (dedup_key v) seen) vs)"

section \<open>The environment of a scan\<close>

text \<open>
  The scanner talks to the Docker daemon, to the engine's HTTP API and to the file
  system, and reads the clock. The environment is an oracle: the reply to the \<open>n\<close>-th
  interaction of a run, given what is asked, and the time that interaction takes. The clock counts whole
  seconds and only moves forward. What a run does is observed in its trace: the methods
  it enters, its interactions with the environment, and the warnings and errors it logs
  (informational and debug log lines are left out).
\<close>

datatype docker_op =
    FromEnv | ContainersGet | RemoveOld | ContainersRun | ContainerLogs
  | ContainerStop | ContainerRemove | ContainerForceRemove

datatype level = Warning | Error

text \<open>The methods whose entry is observed, named as in the source.\<close>

datatype callee =
    M_initialize_scanner | M_start_container | M_run_spider_scan | M_spider_scan
  | M_wait_for_spider | M_run_ajax_spider_scan | M_ajax_spider_scan | M_wait_for_passive_scan
  | M_get_scan_progress | M_run_active_scan | M_active_scan | M_wait_for_active_scan
  | M_get_alerts | M_cleanup | M_get_container_logs | M_shutdown | M_stop_container

datatype event =
    Call callee
  | Docker docker_op
  | Http string pydict
  | WriteFile
  | Log level string

record response =
  status_code :: nat
  json :: "error + pyval"
  text_body :: string

record env =
  docker_reply :: "nat \<Rightarrow> docker_op \<Rightarrow> error + string"
  http_reply :: "nat \<Rightarrow> string \<Rightarrow> error + response"
  write_reply :: "nat \<Rightarrow> error option"
  latency :: "nat \<Rightarrow> nat"

text \<open>
  The dictionary \<open>scan_results\<close> of the executor. Time stamps are clock readings, and the
  entry \<open>error\<close> holds the exception whose \<^verbatim>\<open>str\<close> the code stores.
\<close>

record scan_results =
  res_started_at :: "nat option"
  res_target_url :: "string option"
  res_scan_type :: "pyval option"
  res_spider_scan_id :: "pyval option"
  res_active_scan_id :: "pyval option"
  res_completed_at :: "nat option"
  res_duration :: "nat option"
  res_status :: "string option"
  res_error :: "error option"
  res_vulnerabilities :: "pydict list option"
  res_statistics :: "statistics option"

definition empty_results :: scan_results where
  "empty_results =
     \<lparr>res_started_at = None, res_target_url = None, res_scan_type = None,
      res_spider_scan_id = None, res_active_scan_id = None, res_completed_at = None,
      res_duration = None, res_status = None, res_error = None,
      res_vulnerabilities = None, res_statistics = None\<rparr>"

text \<open>
  The mutable state of one executor with its scanner: the clock, the number of
  interactions so far, the trace, whether \<open>self.scanner\<close> is set, the scanner's
  \<open>container\<close> and \<open>zap_url\<close>, and \<open>scan_results\<close>.
\<close>

record state =
  clock :: nat
  calls :: nat
  trace :: "event list"
  scanner :: bool
  container :: "string option"
  zap_url :: "string option"
  results :: scan_results

definition initial_state :: state where
  "initial_state =
     \<lparr>clock = 0, calls = 0, trace = [], scanner = False, container = None, zap_url = None,
      results = empty_results\<rparr>"

text \<open>
  The resolved scan configuration: what \<open>execute_scan\<close> reads from the nested
  configuration dictionary, after the defaults of each \<^verbatim>\<open>get\<close>. An absent target URL is
  the empty string.
\<close>

record config =
  scan_id :: string
  target_url :: string
  scan_type :: pyval
  spider_enabled :: bool
  spider_max_depth :: pyval
  spider_max_children :: pyval
  ajax_enabled :: bool
  ajax_max_duration :: pyval
  active_enabled :: bool
  scan_timeout :: nat

type_synonym 'a outcome = "(error + 'a) \<times> state"

definition emit :: "event \<Rightarrow> state \<Rightarrow> state" where
  "emit ev s = s\<lparr>trace := trace s @ [ev]\<rparr>"

text \<open>\<^verbatim>\<open>time.sleep(n)\<close>.\<close>

definition sleep :: "nat \<Rightarrow> state \<Rightarrow> state" where
  "sleep n s = s\<lparr>clock := clock s + n\<rparr>"

text \<open>One interaction: it is recorded, counted, and takes the time the environment says.\<close>

definition interact :: "env \<Rightarrow> event \<Rightarrow> state \<Rightarrow> state" where
  "interact e ev s =
     s\<lparr>clock := clock s + latency e (calls s), calls := Suc (calls s), trace := trace s @ [ev]\<rparr>"

definition docker_call :: "env \<Rightarrow> docker_op \<Rightarrow> state \<Rightarrow> string outcome" where
  "docker_call e op s = (docker_reply e (calls s) op, interact e (Docker op) s)"

definition http_get :: "env \<Rightarrow> string \<Rightarrow> pydict \<Rightarrow> state \<Rightarrow> response outcome" where
  "http_get e path params s = (http_reply e (calls s) path, interact e (Http path params) s)"

definition write_file :: "env \<Rightarrow> state \<Rightarrow> unit outcome" where
  "write_file e s =
     ((case write_reply e (calls s) of None \<Rightarrow> Inr () | Some err \<Rightarrow> Inl err),
      interact e WriteFile s)"

subsection \<open>Sequencing, \<^verbatim>\<open>try\<close>/\<^verbatim>\<open>except\<close> and \<^verbatim>\<open>finally\<close>\<close>

text \<open>Statements in sequence: an exception of the first skips the rest.\<close>

definition and_then :: "'a outcome \<Rightarrow> ('a \<Rightarrow> state \<Rightarrow> 'b outcome) \<Rightarrow> 'b outcome" where
  "and_then r f = (case r of (Inl err, s1) \<Rightarrow> (Inl err, s1) | (Inr x, s1) \<Rightarrow> f x s1)"

text \<open>\<^verbatim>\<open>except Exception as e\<close>: the handler runs on any exception of the block.\<close>

definition catch_all :: "'a outcome \<Rightarrow> (error \<Rightarrow> state \<Rightarrow> 'a outcome) \<Rightarrow> 'a outcome" where
  "catch_all r handler = (case r of (Inl err, s1) \<Rightarrow> handler err s1 | (Inr x, s1) \<Rightarrow> (Inr x, s1))"

text \<open>
  \<^verbatim>\<open>finally\<close>: the final block runs after the block whatever its outcome; an exception of
  the final block replaces that outcome.
\<close>

definition try_finally :: "'a outcome \<Rightarrow> (state \<Rightarrow> unit outcome) \<Rightarrow> 'a outcome" where
  "try_finally r fin =
     (case r of (res, s1) \<Rightarrow>
        (case fin s1 of (Inl err, s2) \<Rightarrow> (Inl err, s2) | (Inr u, s2) \<Rightarrow> (res, s2)))"

definition is_request_exception :: "error \<Rightarrow> bool" where
  "is_request_exception err = (case err of RequestException m \<Rightarrow> True | _ \<Rightarrow> False)"

definition is_not_found :: "error \<Rightarrow> bool" where
  "is_not_found err = (case err of DockerNotFound m \<Rightarrow> True | _ \<Rightarrow> False)"

text \<open>\<^verbatim>\<open>v.get(k, default)\<close> on a decoded response, which need not be a dictionary.\<close>

definition py_get :: "pyval \<Rightarrow> string \<Rightarrow> pyval \<Rightarrow> error + pyval" where
  "py_get v k dflt =
     (case v of PDict kvs \<Rightarrow> Inr (dict_get kvs k dflt) | _ \<Rightarrow> Inl (AttributeError Opaque))"

section \<open>ZAPScanner\<close>

definition zap_api_key :: string where
  "zap_api_key = ''amtd-api-key''"

text \<open>
  \<open>_api_call\<close>. A status of 400 to 599 makes \<^verbatim>\<open>raise_for_status\<close> raise; the decoded body
  (or the exception of decoding it) is part of the response.
\<close>

definition api_call :: "env \<Rightarrow> string \<Rightarrow> pydict \<Rightarrow> state \<Rightarrow> pyval outcome" where
  "api_call e endpoint params s =
     (if zap_url s = None then (Inl (Exception (Msg ''ZAP container not started'')), s)
      else
        (let params1 = params @ [(''apikey'', PStr zap_api_key)]
         in if str_contains endpoint ''/other/''
            then and_then (http_get e endpoint params1 s)
                   (\<lambda>resp s1. (Inr (PStr (text_body resp)), s1))
            else and_then (http_get e (''JSON/'' @ endpoint) params1 s)
                   (\<lambda>resp s1.
                      if 400 \<le> status_code resp \<and> status_code resp < 600
                      then (Inl (RequestException Opaque), s1)
                      else (json resp, s1))))"

text \<open>
  One round of the readiness loop of \<open>_wait_for_zap\<close>: \<open>Inr True\<close> when the engine
  answered, \<open>Inr False\<close> when the loop goes on to sleep. Only a request exception is caught.
\<close>

definition probe :: "env \<Rightarrow> state \<Rightarrow> bool outcome" where
  "probe e s =
     (case http_get e ''JSON/core/view/version/'' [(''apikey'', PStr zap_api_key)] s of
        (Inl err, s1) \<Rightarrow> if is_request_exception err then (Inr False, s1) else (Inl err, s1)
      | (Inr resp, s1) \<Rightarrow>
          if status_code resp = 200 then
            (case json resp of
               Inl err \<Rightarrow> if is_request_exception err then (Inr False, s1) else (Inl err, s1)
             | Inr body \<Rightarrow>
                 (case py_get body ''version'' (PStr ''unknown'') of
                    Inl err \<Rightarrow> (Inl err, s1)
                  | Inr version \<Rightarrow> (Inr True, s1)))
          else (Inr False, s1))"

function wait_for_zap_loop :: "env \<Rightarrow> nat \<Rightarrow> nat \<Rightarrow> state \<Rightarrow> unit outcome" where
  "wait_for_zap_loop e start_time timeout s =
     (if clock s - start_time < timeout then
        (case probe e s of
           (Inl err, s1) \<Rightarrow> (Inl err, s1)
         | (Inr ready, s1) \<Rightarrow>
             if ready then (Inr (), s1)
             else wait_for_zap_loop e start_time timeout (sleep 2 s1))
      else (Inl (TimeoutError (Msg (''ZAP failed to start within '' @ show_nat timeout @ '' seconds''))), s))"
  by pat_completeness auto

lemma clock_interact [simp]: "clock (interact e ev s) = clock s + latency e (calls s)"
  by (simp add: interact_def)

lemma clock_emit [simp]: "clock (emit ev s) = clock s"
  by (simp add: emit_def)

lemma clock_sleep [simp]: "clock (sleep n s) = clock s + n"
  by (simp add: sleep_def)

lemma clock_probe: "probe e s = (r, s1) \<Longrightarrow> clock s \<le> clock s1"
  by (auto simp: probe_def http_get_def split: sum.splits prod.splits if_splits)

termination wait_for_zap_loop
  apply (relation "measure (\<lambda>(e, start_time, timeout, s). start_time + timeout - clock s)")
   apply simp
  apply (auto dest!: clock_probe [OF sym])
  done

declare wait_for_zap_loop.simps [simp del]

definition wait_for_zap :: "env \<Rightarrow> nat \<Rightarrow> state \<Rightarrow> unit outcome" where
  "wait_for_zap e timeout s = wait_for_zap_loop e (clock s) timeout s"

text \<open>The inner \<^verbatim>\<open>try\<close> of \<open>start_container\<close>: only \<open>NotFound\<close> is passed over.\<close>

definition remove_existing :: "env \<Rightarrow> state \<Rightarrow> unit outcome" where
  "remove_existing e s =
     catch_all
       (and_then (docker_call e ContainersGet s) (\<lambda>old s1.
        and_then (docker_call e RemoveOld s1) (\<lambda>u s2. (Inr (), s2))))
       (\<lambda>err s1. if is_not_found err then (Inr (), s1) else (Inl err, s1))"

definition start_container :: "env \<Rightarrow> string \<Rightarrow> state \<Rightarrow> string outcome" where
  "start_container e sid s =
     catch_all
       (and_then (remove_existing e (emit (Call M_start_container) s)) (\<lambda>u s1.
        and_then (docker_call e ContainersRun s1) (\<lambda>cid s2.
        and_then
          (wait_for_zap e 120
             (s2\<lparr>container := Some cid, zap_url := Some (''http://amtd-zap-'' @ sid @ '':8080'')\<rparr>))
          (\<lambda>u s3. (Inr cid, s3)))))
       (\<lambda>err s1. (Inl err, emit (Log Error ''Failed to start ZAP container'') s1))"

definition spider_scan :: "env \<Rightarrow> string \<Rightarrow> pyval \<Rightarrow> pyval \<Rightarrow> state \<Rightarrow> pyval outcome" where
  "spider_scan e target max_depth max_children s =
     and_then (api_call e ''spider/action/setOptionMaxDepth/'' [(''Integer'', max_depth)]
                 (emit (Call M_spider_scan) s)) (\<lambda>r1 s1.
     and_then (api_call e ''spider/action/setOptionMaxChildren/'' [(''Integer'', max_children)] s1)
       (\<lambda>r2 s2.
     and_then (api_call e ''spider/action/scan/'' [(''url'', PStr target)] s2) (\<lambda>response s3.
       (py_get response ''scan'' (PStr []), s3))))"

definition ajax_spider_scan :: "env \<Rightarrow> string \<Rightarrow> pyval \<Rightarrow> state \<Rightarrow> pyval outcome" where
  "ajax_spider_scan e target max_duration s =
     and_then (api_call e ''ajaxSpider/action/setOptionMaxDuration/'' [(''Integer'', max_duration)]
                 (emit (Call M_ajax_spider_scan) s)) (\<lambda>r1 s1.
     and_then (api_call e ''ajaxSpider/action/scan/'' [(''url'', PStr target)] s1) (\<lambda>response s2.
       (py_get response ''Result'' (PStr []), s2)))"

text \<open>\<open>active_scan\<close> is called without a policy, so no policy name is sent.\<close>

definition active_scan :: "env \<Rightarrow> string \<Rightarrow> state \<Rightarrow> pyval outcome" where
  "active_scan e target s =
     and_then (api_call e ''ascan/action/scan/'' [(''url'', PStr target), (''recurse'', PStr ''true'')]
                 (emit (Call M_active_scan) s)) (\<lambda>response s1.
       (py_get response ''scan'' (PStr []), s1))"

text \<open>
  The first two statements of the loop body of \<open>wait_for_spider\<close> and of
  \<open>wait_for_active_scan\<close>: the status request and \<^verbatim>\<open>int(response.get("status", 0))\<close>.
\<close>

definition status_poll :: "env \<Rightarrow> string \<Rightarrow> pyval \<Rightarrow> state \<Rightarrow> int outcome" where
  "status_poll e endpoint sid s =
     and_then (api_call e endpoint [(''scanId'', sid)] s) (\<lambda>response s1.
       ((case py_get response ''status'' (PInt 0) of Inl err \<Rightarrow> Inl err | Inr v \<Rightarrow> py_int v), s1))"

function wait_for_spider_loop :: "env \<Rightarrow> pyval \<Rightarrow> nat \<Rightarrow> nat \<Rightarrow> state \<Rightarrow> bool outcome" where
  "wait_for_spider_loop e sid start_time timeout s =
     (if clock s - start_time < timeout then
        (case status_poll e ''spider/view/status/'' sid s of
           (Inl err, s1) \<Rightarrow> (Inl err, s1)
         | (Inr status, s1) \<Rightarrow>
             if status \<ge> 100 then (Inr True, s1)
             else wait_for_spider_loop e sid start_time timeout (sleep 5 s1))
      else (Inr False, emit (Log Error ''Spider scan timed out'') s))"
  by pat_completeness auto

function wait_for_active_scan_loop :: "env \<Rightarrow> pyval \<Rightarrow> nat \<Rightarrow> nat \<Rightarrow> state \<Rightarrow> bool outcome" where
  "wait_for_active_scan_loop e sid start_time timeout s =
     (if clock s - start_time < timeout then
        (case status_poll e ''ascan/view/status/'' sid s of
           (Inl err, s1) \<Rightarrow> (Inl err, s1)
         | (Inr status, s1) \<Rightarrow>
             if status \<ge> 100 then (Inr True, s1)
             else wait_for_active_scan_loop e sid start_time timeout (sleep 10 s1))
      else (Inr False, emit (Log Error ''Active scan timed out'') s))"
  by pat_completeness auto

lemma clock_http_get: "http_get e path params s = (r, s1) \<Longrightarrow> clock s \<le> clock s1"
  by (auto simp: http_get_def)

lemma clock_api_call: "api_call e endpoint params s = (r, s1) \<Longrightarrow> clock s \<le> clock s1"
  by (auto simp: api_call_def and_then_def http_get_def Let_def split: if_splits sum.splits)

lemma clock_status_poll: "status_poll e endpoint sid s = (r, s1) \<Longrightarrow> clock s \<le> clock s1"
  by (auto simp: status_poll_def and_then_def split: sum.splits prod.splits dest: clock_api_call)

text \<open>
  The loops end because the clock moves: a round that does not return sleeps before the
  next one.
\<close>

termination wait_for_spider_loop
  apply (relation "measure (\<lambda>(e, sid, start_time, timeout, s). start_time + timeout - clock s)")
   apply simp
  apply (auto dest!: clock_status_poll [OF sym])
  done

termination wait_for_active_scan_loop
  apply (relation "measure (\<lambda>(e, sid, start_time, timeout, s). start_time + timeout - clock s)")
   apply simp
  apply (auto dest!: clock_status_poll [OF sym])
  done

declare wait_for_spider_loop.simps [simp del] wait_for_active_scan_loop.simps [simp del]

definition wait_for_spider :: "env \<Rightarrow> pyval \<Rightarrow> nat \<Rightarrow> state \<Rightarrow> bool outcome" where
  "wait_for_spider e sid timeout s =
     (let s0 = emit (Call M_wait_for_spider) s
      in wait_for_spider_loop e sid (clock s0) timeout s0)"

definition wait_for_active_scan :: "env \<Rightarrow> pyval \<Rightarrow> nat \<Rightarrow> state \<Rightarrow> bool outcome" where
  "wait_for_active_scan e sid timeout s =
     (let s0 = emit (Call M_wait_for_active_scan) s
      in wait_for_active_scan_loop e sid (clock s0) timeout s0)"

text \<open>\<^verbatim>\<open>len(x)\<close> and the elements a \<^verbatim>\<open>for\<close> loop draws from \<open>x\<close>.\<close>

fun py_len :: "pyval \<Rightarrow> error + nat" where
  "py_len (PStr s) = Inr (length s)"
| "py_len (PList xs) = Inr (length xs)"
| "py_len (PDict kvs) = Inr (length kvs)"
| "py_len v = Inl (TypeError Opaque)"

fun py_iter :: "pyval \<Rightarrow> error + pyval list" where
  "py_iter (PStr s) = Inr (map (\<lambda>c. PStr [c]) s)"
| "py_iter (PList xs) = Inr xs"
| "py_iter (PDict kvs) = Inr (map (\<lambda>kv. PStr (fst kv)) kvs)"
| "py_iter v = Inl (TypeError Opaque)"

text \<open>\<open>get_alerts\<close>; the length of the alert list is formatted into a log line.\<close>

definition get_alerts :: "env \<Rightarrow> string \<Rightarrow> state \<Rightarrow> pyval outcome" where
  "get_alerts e base_url s =
     and_then
       (api_call e ''core/view/alerts/'' (if base_url \<noteq> [] then [(''baseurl'', PStr base_url)] else [])
          (emit (Call M_get_alerts) s))
       (\<lambda>response s1.
          case py_get response ''alerts'' (PList []) of
            Inl err \<Rightarrow> (Inl err, s1)
          | Inr alerts \<Rightarrow>
              (case py_len alerts of Inl err \<Rightarrow> (Inl err, s1) | Inr n \<Rightarrow> (Inr alerts, s1)))"

definition shutdown :: "env \<Rightarrow> state \<Rightarrow> unit outcome" where
  "shutdown e s =
     catch_all
       (and_then (api_call e ''core/action/shutdown/'' [] (emit (Call M_shutdown) s))
          (\<lambda>r s1. (Inr (), sleep 5 s1)))
       (\<lambda>err s1. (Inr (), emit (Log Warning ''Error during ZAP shutdown'') s1))"

text \<open>
  \<open>stop_container\<close>; the innermost \<^verbatim>\<open>except\<close> has no class and passes over everything.
\<close>

definition stop_container :: "env \<Rightarrow> state \<Rightarrow> unit outcome" where
  "stop_container e s =
     and_then
       (let s0 = emit (Call M_stop_container) s
        in if container s0 \<noteq> None then
             catch_all
               (and_then (docker_call e ContainerStop s0) (\<lambda>r1 s1.
                and_then (docker_call e ContainerRemove s1) (\<lambda>r2 s2. (Inr (), s2))))
               (\<lambda>err s1.
                  catch_all
                    (and_then
                       (docker_call e ContainerForceRemove
                          (emit (Log Error ''Error stopping container'') s1))
                       (\<lambda>r3 s2. (Inr (), s2)))
                    (\<lambda>err2 s2. (Inr (), s2)))
           else (Inr (), s0))
       (\<lambda>u s3. (Inr (), s3\<lparr>container := None, zap_url := None\<rparr>))"

text \<open>The fallback of \<open>get_scan_progress\<close> and the progress it reports otherwise.\<close>

definition no_progress :: pydict where
  "no_progress = [(''records_to_scan'', PInt 0), (''passive_scan_complete'', PBool False)]"

definition get_scan_progress :: "env \<Rightarrow> state \<Rightarrow> pydict outcome" where
  "get_scan_progress e s =
     catch_all
       (and_then (api_call e ''pscan/view/recordsToScan/'' [] (emit (Call M_get_scan_progress) s))
          (\<lambda>response s1.
             case py_get response ''recordsToScan'' (PInt 0) of
               Inl err \<Rightarrow> (Inl err, s1)
             | Inr v \<Rightarrow>
                 (case py_int v of
                    Inl err \<Rightarrow> (Inl err, s1)
                  | Inr records_to_scan \<Rightarrow>
                      (Inr [(''records_to_scan'', PInt records_to_scan),
                            (''passive_scan_complete'', PBool (records_to_scan = 0))], s1))))
       (\<lambda>err s1. (Inr no_progress, emit (Log Error ''Error getting scan progress'') s1))"

definition get_container_logs :: "env \<Rightarrow> state \<Rightarrow> string outcome" where
  "get_container_logs e s =
     (let s0 = emit (Call M_get_container_logs) s
      in if container s0 \<noteq> None then
           catch_all (docker_call e ContainerLogs s0)
             (\<lambda>err s1. (Inr [], emit (Log Error ''Error getting container logs'') s1))
         else (Inr [], s0))"

section \<open>ScanExecutor\<close>

text \<open>
  \<open>_initialize_scanner\<close>: the constructor of the scanner connects to Docker, and only
  when it returns is \<open>self.scanner\<close> set.
\<close>

definition initialize_scanner :: "env \<Rightarrow> config \<Rightarrow> state \<Rightarrow> unit outcome" where
  "initialize_scanner e cfg s =
     and_then (docker_call e FromEnv (emit (Call M_initialize_scanner) s)) (\<lambda>client s1.
     and_then (start_container e (scan_id cfg) (s1\<lparr>scanner := True, container := None, zap_url := None\<rparr>))
       (\<lambda>cid s2. (Inr (), s2)))"

definition run_spider_scan :: "env \<Rightarrow> config \<Rightarrow> state \<Rightarrow> unit outcome" where
  "run_spider_scan e cfg s =
     and_then (spider_scan e (target_url cfg) (spider_max_depth cfg) (spider_max_children cfg)
                 (emit (Call M_run_spider_scan) s)) (\<lambda>sid s1.
     and_then (wait_for_spider e sid 1800 s1) (\<lambda>success s2.
       (let s3 = (if \<not> success
                  then emit (Log Warning ''Spider scan did not complete within timeout'') s2
                  else s2)
        in (Inr (), s3\<lparr>results := (results s3)\<lparr>res_spider_scan_id := Some sid\<rparr>\<rparr>))))"

definition run_ajax_spider_scan :: "env \<Rightarrow> config \<Rightarrow> state \<Rightarrow> unit outcome" where
  "run_ajax_spider_scan e cfg s =
     and_then (ajax_spider_scan e (target_url cfg) (ajax_max_duration cfg)
                 (emit (Call M_run_ajax_spider_scan) s))
       (\<lambda>result s1. (Inr (), s1))"

function wait_for_passive_scan_loop :: "env \<Rightarrow> nat \<Rightarrow> nat \<Rightarrow> state \<Rightarrow> unit outcome" where
  "wait_for_passive_scan_loop e start_time timeout s =
     (if clock s - start_time < timeout then
        (case get_scan_progress e s of
           (Inl err, s1) \<Rightarrow> (Inl err, s1)
         | (Inr progress, s1) \<Rightarrow>
             if truthy (dict_get progress ''passive_scan_complete'' (PBool False)) then (Inr (), s1)
             else wait_for_passive_scan_loop e start_time timeout (sleep 5 s1))
      else (Inr (), emit (Log Warning ''Passive scan timeout reached'') s))"
  by pat_completeness auto

lemma clock_get_scan_progress: "get_scan_progress e s = (r, s1) \<Longrightarrow> clock s \<le> clock s1"
  by (auto simp: get_scan_progress_def and_then_def catch_all_def
           split: sum.splits prod.splits dest: clock_api_call)

termination wait_for_passive_scan_loop
  apply (relation "measure (\<lambda>(e, start_time, timeout, s). start_time + timeout - clock s)")
   apply simp
  apply (auto dest!: clock_get_scan_progress [OF sym])
  done

declare wait_for_passive_scan_loop.simps [simp del]

definition wait_for_passive_scan :: "env \<Rightarrow> nat \<Rightarrow> state \<Rightarrow> unit outcome" where
  "wait_for_passive_scan e timeout s =
     (let s0 = emit (Call M_wait_for_passive_scan) s
      in wait_for_passive_scan_loop e (clock s0) timeout s0)"

definition run_active_scan :: "env \<Rightarrow> config \<Rightarrow> state \<Rightarrow> unit outcome" where
  "run_active_scan e cfg s =
     and_then (active_scan e (target_url cfg) (emit (Call M_run_active_scan) s)) (\<lambda>sid s1.
     and_then (wait_for_active_scan e sid (scan_timeout cfg) s1) (\<lambda>success s2.
       (let s3 = (if \<not> success
                  then emit (Log Warning ''Active scan did not complete within timeout'') s2
                  else s2)
        in (Inr (), s3\<lparr>results := (results s3)\<lparr>res_active_scan_id := Some sid\<rparr>\<rparr>))))"

text \<open>
  \<open>_cleanup\<close>: two \<^verbatim>\<open>try\<close> blocks, each with a handler for every exception, run when
  \<open>self.scanner\<close> is set.
\<close>

definition cleanup :: "env \<Rightarrow> state \<Rightarrow> unit outcome" where
  "cleanup e s =
     (let s0 = emit (Call M_cleanup) s
      in if scanner s0 then
           and_then
             (catch_all
                (and_then (get_container_logs e s0) (\<lambda>logs s1. write_file e s1))
                (\<lambda>err s1. (Inr (), emit (Log Error ''Error saving logs'') s1)))
             (\<lambda>u s2.
                catch_all
                  (and_then (shutdown e s2) (\<lambda>u2 s3. stop_container e s3))
                  (\<lambda>err s3. (Inr (), emit (Log Error ''Error stopping scanner'') s3)))
         else (Inr (), s0))"

text \<open>Steps 1 to 5 of \<open>execute_scan\<close>, after the start time has been recorded.\<close>

definition scan_phases :: "env \<Rightarrow> config \<Rightarrow> nat \<Rightarrow> state \<Rightarrow> scan_results outcome" where
  "scan_phases e cfg start_time s =
     and_then (if spider_enabled cfg then run_spider_scan e cfg s else (Inr (), s)) (\<lambda>u1 s1.
     and_then (if ajax_enabled cfg then run_ajax_spider_scan e cfg s1 else (Inr (), s1)) (\<lambda>u2 s2.
     and_then (wait_for_passive_scan e 300 s2) (\<lambda>u3 s3.
     and_then (if active_enabled cfg then run_active_scan e cfg s3 else (Inr (), s3)) (\<lambda>u4 s4.
     and_then (get_alerts e (target_url cfg) s4) (\<lambda>alerts s5.
       case py_len alerts of
         Inl err \<Rightarrow> (Inl err, s5)
       | Inr n \<Rightarrow>
           (case py_iter alerts of
              Inl err \<Rightarrow> (Inl err, s5)
            | Inr items \<Rightarrow>
                (let parsed_results = parse_alerts items;
                     end_time = clock s5;
                     res = (results s5)
                       \<lparr>res_completed_at := Some end_time,
                        res_duration := Some (end_time - start_time),
                        res_status := Some ''completed'',
                        res_vulnerabilities := Some (vulnerabilities parsed_results),
                        res_statistics := Some (statistics parsed_results)\<rparr>
                 in (Inr res, s5\<lparr>results := res\<rparr>))))))))"

text \<open>The \<^verbatim>\<open>try\<close> block of \<open>execute_scan\<close>.\<close>

definition scan_body :: "env \<Rightarrow> config \<Rightarrow> state \<Rightarrow> scan_results outcome" where
  "scan_body e cfg s =
     and_then (initialize_scanner e cfg s) (\<lambda>u s1.
       if target_url cfg = []
       then (Inl (ValueError (Msg ''Target URL not specified in configuration'')), s1)
       else
         (let start_time = clock s1;
              s2 = s1\<lparr>results := (results s1)
                     \<lparr>res_started_at := Some start_time,
                      res_target_url := Some (target_url cfg),
                      res_scan_type := Some (scan_type cfg)\<rparr>\<rparr>
          in scan_phases e cfg start_time s2))"

text \<open>The \<^verbatim>\<open>try\<close> block with its \<^verbatim>\<open>except\<close> clause, which records the failure and re-raises.\<close>

definition execute_scan_try :: "env \<Rightarrow> config \<Rightarrow> state \<Rightarrow> scan_results outcome" where
  "execute_scan_try e cfg s =
     catch_all (scan_body e cfg s)
       (\<lambda>err s1.
          (let s2 = emit (Log Error ''Scan execution failed'') s1
           in (Inl err,
               s2\<lparr>results := (results s2)\<lparr>res_status := Some ''failed'', res_error := Some err\<rparr>\<rparr>)))"

definition execute_scan :: "env \<Rightarrow> config \<Rightarrow> state \<Rightarrow> scan_results outcome" where
  "execute_scan e cfg s = try_finally (execute_scan_try e cfg s) (cleanup e)"

definition get_scan_results :: "state \<Rightarrow> scan_results" where
  "get_scan_results s = results s"

section \<open>Observing a run\<close>

text \<open>
  How often a run has done something: the number of events of its trace that satisfy a
  predicate.
\<close>

definition tally :: "(event \<Rightarrow> bool) \<Rightarrow> state \<Rightarrow> nat" where
  "tally P s = length (filter P (trace s))"

text \<open>
  Predicates that hold of nothing the start of the scanner or \<open>_cleanup\<close> does on its own
  account: no Docker operation, file write or log line, neither the readiness probe nor the
  shutdown request, and not the entry of \<open>_initialize_scanner\<close> or \<open>start_container\<close>.
\<close>

definition quiet :: "(event \<Rightarrow> bool) \<Rightarrow> bool" where
  "quiet P =
     ((\<forall>op. \<not> P (Docker op)) \<and> \<not> P WriteFile \<and> (\<forall>l m. \<not> P (Log l m)) \<and>
      (\<forall>ps. \<not> P (Http ''JSON/core/view/version/'' ps)) \<and>
      (\<forall>ps. \<not> P (Http ''JSON/core/action/shutdown/'' ps)) \<and>
      \<not> P (Call M_initialize_scanner) \<and> \<not> P (Call M_start_container))"

text \<open>Predicates that hold at most of the entry of \<open>_cleanup\<close> and of the three methods it calls.\<close>

definition cleanup_only :: "(event \<Rightarrow> bool) \<Rightarrow> bool" where
  "cleanup_only P =
     (\<forall>ev. P ev \<longrightarrow>
        ev = Call M_cleanup \<or> ev = Call M_get_container_logs \<or> ev = Call M_shutdown \<or>
        ev = Call M_stop_container)"

text \<open>
  An environment in which the image cannot be pulled, the log file cannot be written and
  the engine does not answer, and a configuration with the defaults of the source.
\<close>

definition no_image :: env where
  "no_image =
     \<lparr>docker_reply =
        (\<lambda>n op. if op = ContainersGet then Inl (DockerNotFound Opaque)
                 else if op = ContainersRun then Inl (DockerException (Msg ''pull access denied''))
                 else Inr ''c0ffee''),
      http_reply = (\<lambda>n path. Inl (RequestException Opaque)),
      write_reply = (\<lambda>n. Some (OSError Opaque)),
      latency = (\<lambda>n. 1)\<rparr>"

definition example_config :: config where
  "example_config =
     \<lparr>scan_id = ''s1'', target_url = ''http://t'', scan_type = PStr ''full'',
      spider_enabled = True, spider_max_depth = PInt 5, spider_max_children = PInt 10,
      ajax_enabled = False, ajax_max_duration = PInt 10, active_enabled = True,
      scan_timeout = 7200\<rparr>"

section \<open>Properties of the result parser\<close>

subsection \<open>Statistics\<close>

lemma table_get_severity:
  "table_get SEVERITY_MAP k ''info'' \<in> {''critical'', ''high'', ''medium'', ''low'', ''info''}"
  by (simp add: table_get_def SEVERITY_MAP_def)

lemma parse_alert_dict_severity:
  assumes "parse_alert_dict d = Inr vuln"
  shows "dict_get vuln ''severity'' x =
           PStr (table_get SEVERITY_MAP (py_str (dict_get d ''risk'' (PStr ''0''))) ''info'')"
  using assms
  by (auto simp: parse_alert_dict_def Let_def dict_get_def split: sum.splits)

lemma parse_alert_dict_confidence:
  assumes "parse_alert_dict d = Inr vuln"
  shows "dict_get vuln ''confidence'' x =
           PStr (table_get CONFIDENCE_MAP (py_str (dict_get d ''confidence'' (PStr ''0''))) ''low'')"
  using assms
  by (auto simp: parse_alert_dict_def Let_def dict_get_def split: sum.splits)

lemma parse_alert_is_dict:
  assumes "parse_alert alert = Inr vuln"
  obtains d where "alert = PDict d" and "parse_alert_dict d = Inr vuln"
  using assms by (cases alert) (simp_all add: parse_alert_def)

lemma stats_inv_initial: "stats_inv initial_statistics"
  by (simp add: stats_inv_def initial_statistics_def)

lemma stats_inv_count:
  assumes "stats_inv st" and "s \<in> {''critical'', ''high'', ''medium'', ''low'', ''info''}"
  shows "\<exists>t. (st(PStr s \<mapsto> (case st (PStr s) of None \<Rightarrow> 0 | Some n \<Rightarrow> n) + 1)) (PStr ''total'') = Some t \<and>
     stats_inv ((st(PStr s \<mapsto> (case st (PStr s) of None \<Rightarrow> 0 | Some n \<Rightarrow> n) + 1))(PStr ''total'' \<mapsto> t + 1))"
proof -
  from assms(1) obtain c h m l i where st:
    "st (PStr ''critical'') = Some c" "st (PStr ''high'') = Some h"
    "st (PStr ''medium'') = Some m" "st (PStr ''low'') = Some l"
    "st (PStr ''info'') = Some i" "st (PStr ''total'') = Some (c + h + m + l + i)"
    unfolding stats_inv_def by (elim exE conjE)
  from assms(2) have "s = ''critical'' \<or> s = ''high'' \<or> s = ''medium'' \<or> s = ''low'' \<or> s = ''info''"
    by (simp only: insert_iff empty_iff simp_thms)
  then show ?thesis
  proof (elim disjE)
    assume "s = ''critical''" then show ?thesis using st by (simp add: stats_inv_def)
  next
    assume "s = ''high''" then show ?thesis using st by (simp add: stats_inv_def)
  next
    assume "s = ''medium''" then show ?thesis using st by (simp add: stats_inv_def)
  next
    assume "s = ''low''" then show ?thesis using st by (simp add: stats_inv_def)
  next
    assume "s = ''info''" then show ?thesis using st by (simp add: stats_inv_def)
  qed
qed

lemma stats_inv_step:
  assumes "stats_inv (statistics r)"
  shows "stats_inv (statistics (parse_step r alert))"
proof (cases "parse_alert alert")
  case (Inl err)
  then show ?thesis using assms by (simp add: parse_step_def)
next
  case (Inr vuln)
  then obtain d where d: "parse_alert_dict d = Inr vuln"
    by (rule parse_alert_is_dict)
  define s where "s = table_get SEVERITY_MAP (py_str (dict_get d ''risk'' (PStr ''0''))) ''info''"
  have sev: "dict_get vuln ''severity'' (PStr ''info'') = PStr s"
    unfolding s_def by (rule parse_alert_dict_severity [OF d])
  have "s \<in> {''critical'', ''high'', ''medium'', ''low'', ''info''}"
    unfolding s_def by (rule table_get_severity)
  from stats_inv_count [OF assms this] obtain t where
    t: "((statistics r)(PStr s \<mapsto> (case statistics r (PStr s) of None \<Rightarrow> 0 | Some n \<Rightarrow> n) + 1)) (PStr ''total'') = Some t"
    and inv: "stats_inv (((statistics r)(PStr s \<mapsto> (case statistics r (PStr s) of None \<Rightarrow> 0 | Some n \<Rightarrow> n) + 1))(PStr ''total'' \<mapsto> t + 1))"
    by blast
  have "statistics (parse_step r alert) =
      ((statistics r)(PStr s \<mapsto> (case statistics r (PStr s) of None \<Rightarrow> 0 | Some n \<Rightarrow> n) + 1))(PStr ''total'' \<mapsto> t + 1)"
    unfolding parse_step_def Inr sum.case Let_def sev using t by simp
  with inv show ?thesis by simp
qed


lemma stats_inv_foldl:
  "stats_inv (statistics r) \<Longrightarrow> stats_inv (statistics (foldl parse_step r alerts))"
  by (induction alerts arbitrary: r) (simp_all add: stats_inv_step)

text \<open>
  Claim C1. For every list of raw alerts, the statistics that \<open>parse_alerts\<close> returns hold
  all six counters and \<open>total\<close> is the sum of the five severity counters; on the empty
  list all six counters are zero.
\<close>

theorem parse_alerts_total_is_sum:
  "(\<exists>c h m l i.
      statistics (parse_alerts alerts) (PStr ''critical'') = Some c \<and>
      statistics (parse_alerts alerts) (PStr ''high'') = Some h \<and>
      statistics (parse_alerts alerts) (PStr ''medium'') = Some m \<and>
      statistics (parse_alerts alerts) (PStr ''low'') = Some l \<and>
      statistics (parse_alerts alerts) (PStr ''info'') = Some i \<and>
      statistics (parse_alerts alerts) (PStr ''total'') = Some (c + h + m + l + i))
   \<and> map (statistics (parse_alerts []))
        [PStr ''critical'', PStr ''high'', PStr ''medium'', PStr ''low'', PStr ''info'',
         PStr ''total'']
      = [Some 0, Some 0, Some 0, Some 0, Some 0, Some 0]"
proof
  have "stats_inv (statistics (parse_alerts alerts))"
    unfolding parse_alerts_def by (rule stats_inv_foldl) (simp add: stats_inv_initial)
  then show "\<exists>c h m l i.
      statistics (parse_alerts alerts) (PStr ''critical'') = Some c \<and>
      statistics (parse_alerts alerts) (PStr ''high'') = Some h \<and>
      statistics (parse_alerts alerts) (PStr ''medium'') = Some m \<and>
      statistics (parse_alerts alerts) (PStr ''low'') = Some l \<and>
      statistics (parse_alerts alerts) (PStr ''info'') = Some i \<and>
      statistics (parse_alerts alerts) (PStr ''total'') = Some (c + h + m + l + i)"
    by (simp only: stats_inv_def)
next
  show "map (statistics (parse_alerts []))
        [PStr ''critical'', PStr ''high'', PStr ''medium'', PStr ''low'', PStr ''info'',
         PStr ''total'']
      = [Some 0, Some 0, Some 0, Some 0, Some 0, Some 0]"
    by (simp add: parse_alerts_def initial_statistics_def)
qed

lemma example_alerts_counters:
  "map (statistics (parse_alerts example_alerts))
     [PStr ''critical'', PStr ''high'', PStr ''medium'', PStr ''low'', PStr ''info'']
   = [Some 1, Some 0, Some 0, Some 1, Some 0]"
  by code_simp

text \<open>
  The two alerts of the end-to-end example: one critical and one low finding give a
  total of two.
\<close>

theorem parse_alerts_total_is_sum_witness:
  "statistics (parse_alerts example_alerts) (PStr ''total'') = Some 2"
proof -
  from parse_alerts_total_is_sum [of example_alerts] obtain c h m l i where
    "statistics (parse_alerts example_alerts) (PStr ''critical'') = Some c"
    "statistics (parse_alerts example_alerts) (PStr ''high'') = Some h"
    "statistics (parse_alerts example_alerts) (PStr ''medium'') = Some m"
    "statistics (parse_alerts example_alerts) (PStr ''low'') = Some l"
    "statistics (parse_alerts example_alerts) (PStr ''info'') = Some i"
    and t: "statistics (parse_alerts example_alerts) (PStr ''total'') = Some (c + h + m + l + i)"
    by (elim conjE exE)
  with example_alerts_counters have "c = 1" "h = 0" "m = 0" "l = 1" "i = 0"
    by simp_all
  with t show ?thesis by simp
qed

subsection \<open>Classification\<close>

lemma table_get_severity_cases:
  "table_get SEVERITY_MAP k ''info'' =
     (if k = ''0'' then ''info'' else if k = ''1'' then ''low'' else if k = ''2'' then ''medium''
      else if k = ''3'' then ''high'' else if k = ''4'' then ''critical'' else ''info'')"
  by (simp add: table_get_def SEVERITY_MAP_def)

lemma table_get_confidence_cases:
  "table_get CONFIDENCE_MAP k ''low'' =
     (if k = ''0'' then ''false_positive'' else if k = ''1'' then ''low''
      else if k = ''2'' then ''medium'' else if k = ''3'' then ''high''
      else if k = ''4'' then ''confirmed'' else ''low'')"
  by (simp add: table_get_def CONFIDENCE_MAP_def)

text \<open>
  Claim C6. The lookup \<^verbatim>\<open>SEVERITY_MAP.get(str(risk), 'info')\<close> has a default for every
  key, but \<open>_parse_alert\<close> goes on to evaluate \<^verbatim>\<open>int(risk)\<close> without a guard: an alert
  whose risk is the text \<open>High\<close> makes it raise \<open>ValueError\<close>, and \<open>parse_alerts\<close> drops the
  alert instead of reporting it with severity \<open>info\<close>.
\<close>

theorem parse_alert_textual_risk_raises:
  "table_get SEVERITY_MAP (py_str (dict_get textual_alert ''risk'' (PStr ''0''))) ''info'' = ''info'' \<and>
   parse_alert (PDict textual_alert) = Inl (ValueError Opaque) \<and>
   vulnerabilities (parse_alerts [PDict textual_alert]) = []"
  by code_simp

subsection \<open>Filtering by confidence\<close>

lemma list_index_order:
  "list_index confidence_order ''low'' = Inr 0"
  "list_index confidence_order ''medium'' = Inr 1"
  "list_index confidence_order ''high'' = Inr 2"
  "list_index confidence_order ''confirmed'' = Inr 3"
  by (simp_all add: confidence_order_def)

text \<open>
  Claim C8. With the threshold \<open>medium\<close> the filter returns, in order, exactly the findings
  whose confidence is \<open>medium\<close>, \<open>high\<close> or \<open>confirmed\<close>; of the findings whose confidence is
  one of the four tiers of the ordering, the removed ones are those of confidence \<open>low\<close>;
  and for every threshold of the ordering no finding of confidence \<open>false_positive\<close> is
  in the result.
\<close>

theorem filter_by_confidence_medium:
  "filter_by_confidence vulns ''medium'' =
     Inr (filter (\<lambda>v. finding_confidence v \<in> {PStr ''medium'', PStr ''high'', PStr ''confirmed''})
            vulns)
   \<and> (\<forall>v \<in> set vulns. \<forall>kept. filter_by_confidence vulns ''medium'' = Inr kept \<longrightarrow>
         finding_confidence v \<in> PStr ` set confidence_order \<longrightarrow>
         (v \<notin> set kept \<longleftrightarrow> finding_confidence v = PStr ''low''))
   \<and> (\<forall>m \<in> set confidence_order. \<exists>kept. filter_by_confidence vulns m = Inr kept \<and>
         (\<forall>v \<in> set kept. finding_confidence v \<noteq> PStr ''false_positive''))"
proof (intro conjI)
  show a: "filter_by_confidence vulns ''medium'' =
     Inr (filter (\<lambda>v. finding_confidence v \<in> {PStr ''medium'', PStr ''high'', PStr ''confirmed''})
            vulns)"
    by (simp add: filter_by_confidence_def list_index_order) (simp add: confidence_order_def)
  show "\<forall>v \<in> set vulns. \<forall>kept. filter_by_confidence vulns ''medium'' = Inr kept \<longrightarrow>
         finding_confidence v \<in> PStr ` set confidence_order \<longrightarrow>
         (v \<notin> set kept \<longleftrightarrow> finding_confidence v = PStr ''low'')"
    unfolding a by (auto simp: confidence_order_def)
  show "\<forall>m \<in> set confidence_order. \<exists>kept. filter_by_confidence vulns m = Inr kept \<and>
         (\<forall>v \<in> set kept. finding_confidence v \<noteq> PStr ''false_positive'')"
  proof
    fix m assume "m \<in> set confidence_order"
    then consider "m = ''low''" | "m = ''medium''" | "m = ''high''" | "m = ''confirmed''"
      by (auto simp: confidence_order_def)
    then show "\<exists>kept. filter_by_confidence vulns m = Inr kept \<and>
         (\<forall>v \<in> set kept. finding_confidence v \<noteq> PStr ''false_positive'')"
      by cases
        (auto simp: filter_by_confidence_def list_index_order, auto simp: confidence_order_def)
  qed
qed

lemma example_findings_confidences:
  "map finding_confidence example_findings =
     [PStr ''medium'', PStr ''false_positive'', PStr ''low'']"
  by code_simp

text \<open>
  Of a medium, a false-positive and a low finding, the threshold \<open>medium\<close> keeps the first
  only.
\<close>

theorem filter_by_confidence_medium_witness:
  "filter_by_confidence example_findings ''medium'' = Inr [hd example_findings]"
proof -
  have "filter (\<lambda>v. finding_confidence v \<in> {PStr ''medium'', PStr ''high'', PStr ''confirmed''})
          example_findings = [hd example_findings]"
    by code_simp
  with filter_by_confidence_medium [of example_findings] show ?thesis by simp
qed

text \<open>
  Claim C10. A threshold outside the ordering \<open>low\<close>, \<open>medium\<close>, \<open>high\<close>, \<open>confirmed\<close> makes
  \<open>filter_by_confidence\<close> return its input list unchanged, without an exception.
\<close>

theorem filter_by_confidence_unknown_threshold:
  "min_confidence \<notin> set confidence_order \<Longrightarrow>
     filter_by_confidence vulns min_confidence = Inr vulns"
  by (simp add: filter_by_confidence_def)

theorem filter_by_confidence_unknown_threshold_witness:
  "''false_positive'' \<notin> set confidence_order \<and>
   filter_by_confidence example_findings ''false_positive'' = Inr example_findings"
proof -
  have h: "''false_positive'' \<notin> set confidence_order"
    by (simp add: confidence_order_def)
  from filter_by_confidence_unknown_threshold [OF h, of example_findings] h
  show ?thesis by simp
qed

subsection \<open>Deduplication\<close>

lemma dedup_loop_keep_new:
  "dedup_loop seen unique xs =
     (if \<forall>v \<in> set xs. key_hashable (raw_key v) then Inr (unique @ keep_new seen xs)
      else Inl (TypeError Opaque))"
  by (induction xs arbitrary: seen unique) auto

lemma keep_new_subset: "set (keep_new seen xs) \<subseteq> set xs"
  by (induction xs arbitrary: seen) auto

lemma keep_new_fresh: "v \<in> set (keep_new seen xs) \<Longrightarrow> dedup_key v \<notin> seen"
  by (induction xs arbitrary: seen) (auto split: if_splits)

lemma keep_new_filter:
  "filter (\<lambda>w. dedup_key w = k) (keep_new seen xs) =
     (if k \<in> seen then []
      else case find (\<lambda>w. dedup_key w = k) xs of None \<Rightarrow> [] | Some v \<Rightarrow> [v])"
proof (induction xs arbitrary: seen)
  case Nil
  show ?case by simp
next
  case (Cons x xs)
  show ?case by (simp add: Cons.IH)
qed

lemma keep_new_fixed:
  "distinct (map dedup_key ys) \<Longrightarrow> dedup_key ` set ys \<inter> seen = {} \<Longrightarrow> keep_new seen ys = ys"
  by (induction ys arbitrary: seen) auto

lemma keep_new_distinct: "distinct (map dedup_key (keep_new seen xs))"
proof (induction xs arbitrary: seen)
  case Nil
  show ?case by simp
next
  case (Cons x xs)
  have "dedup_key x \<notin> dedup_key ` set (keep_new (insert (dedup_key x) seen) xs)"
    using keep_new_fresh [of _ "insert (dedup_key x) seen" xs] by force
  then show ?case
    using Cons.IH by simp
qed

lemma keep_new_idem: "keep_new {} (keep_new {} xs) = keep_new {} xs"
  by (rule keep_new_fixed) (simp_all add: keep_new_distinct)

lemma deduplicate_eq:
  "deduplicate xs =
     (if \<forall>v \<in> set xs. key_hashable (raw_key v) then Inr (keep_new {} xs)
      else Inl (TypeError Opaque))"
  by (simp add: deduplicate_def dedup_loop_keep_new)

lemma dedup_key_eq:
  "dedup_key w =
     (eq_class (dict_get w ''type'' (PStr [])), eq_class (dict_get w ''url'' (PStr [])),
      eq_class (dict_get w ''parameter'' (PStr [])))"
  by (simp add: dedup_key_def raw_key_def)

lemma key_hashable_eq:
  "key_hashable (raw_key v) \<longleftrightarrow>
     hashable (dict_get v ''type'' (PStr [])) \<and> hashable (dict_get v ''url'' (PStr [])) \<and>
     hashable (dict_get v ''parameter'' (PStr []))"
  by (simp add: key_hashable_def raw_key_def)

lemma deduplicate_hashable:
  assumes "\<forall>v \<in> set xs. key_hashable (raw_key v)"
  shows "deduplicate xs = Inr (keep_new {} xs)"
    and "deduplicate_twice xs = Inr (keep_new {} xs)"
proof -
  show d: "deduplicate xs = Inr (keep_new {} xs)"
    using assms by (simp add: deduplicate_eq)
  from assms have "\<forall>v \<in> set (keep_new {} xs). key_hashable (raw_key v)"
    using keep_new_subset [of "{}" xs] by blast
  then have "deduplicate (keep_new {} xs) = Inr (keep_new {} (keep_new {} xs))"
    by (simp add: deduplicate_eq)
  with d show "deduplicate_twice xs = Inr (keep_new {} xs)"
    by (simp add: deduplicate_twice_def keep_new_idem)
qed

lemma deduplicate_unhashable:
  assumes "\<not> (\<forall>v \<in> set xs. key_hashable (raw_key v))"
  shows "deduplicate xs = Inl (TypeError Opaque)"
    and "deduplicate_twice xs = Inl (TypeError Opaque)"
proof -
  show d: "deduplicate xs = Inl (TypeError Opaque)"
    using assms by (simp only: deduplicate_eq if_False)
  then show "deduplicate_twice xs = Inl (TypeError Opaque)"
    by (simp add: deduplicate_twice_def)
qed

lemma deduplicate_abstract:
  "deduplicate_twice xs = deduplicate xs \<and>
   (if \<forall>v \<in> set xs. key_hashable (raw_key v)
    then \<exists>ys. deduplicate xs = Inr ys \<and> set ys \<subseteq> set xs \<and>
           (\<forall>k v. find (\<lambda>w. dedup_key w = k) xs = Some v
                    \<longrightarrow> filter (\<lambda>w. dedup_key w = k) ys = [v])
    else deduplicate xs = Inl (TypeError Opaque))"
proof (cases "\<forall>v \<in> set xs. key_hashable (raw_key v)")
  case True
  have "\<forall>k v. find (\<lambda>w. dedup_key w = k) xs = Some v
          \<longrightarrow> filter (\<lambda>w. dedup_key w = k) (keep_new {} xs) = [v]"
    by (simp add: keep_new_filter)
  with True deduplicate_hashable [OF True] keep_new_subset [of "{}" xs]
  show ?thesis by simp
next
  case False
  with deduplicate_unhashable [OF False] show ?thesis by simp
qed

text \<open>
  Claim C7 fails as stated on a list with two findings of the same key and a third whose
  URL is a list: building the key of the third raises \<open>TypeError\<close>, so no finding
  survives.
\<close>

theorem deduplicate_unhashable_key_raises:
  "raw_key (unhashable_findings ! 0) = raw_key (unhashable_findings ! 1) \<and>
   deduplicate unhashable_findings = Inl (TypeError Opaque)"
  by code_simp

text \<open>
  Claim C7, amended. Deduplicating twice gives what deduplicating once gives, for every
  list (on a list with an unhashable type, URL or parameter both raise \<open>TypeError\<close>). On
  every list whose findings have hashable type, URL and parameter, \<open>deduplicate\<close> returns
  findings of the list, and of the findings that share one key, the triple of type, URL
  and parameter up to Python's equality, exactly one is in the result: the first in
  list order.
\<close>

theorem deduplicate_idempotent_first:
  "deduplicate_twice xs = deduplicate xs \<and>
   (if \<forall>v \<in> set xs.
         hashable (dict_get v ''type'' (PStr [])) \<and> hashable (dict_get v ''url'' (PStr [])) \<and>
         hashable (dict_get v ''parameter'' (PStr []))
    then \<exists>ys. deduplicate xs = Inr ys \<and> set ys \<subseteq> set xs \<and>
           (\<forall>k v.
              find (\<lambda>w. (eq_class (dict_get w ''type'' (PStr [])),
                          eq_class (dict_get w ''url'' (PStr [])),
                          eq_class (dict_get w ''parameter'' (PStr []))) = k) xs = Some v
              \<longrightarrow> filter (\<lambda>w. (eq_class (dict_get w ''type'' (PStr [])),
                                eq_class (dict_get w ''url'' (PStr [])),
                                eq_class (dict_get w ''parameter'' (PStr []))) = k) ys = [v])
    else deduplicate xs = Inl (TypeError Opaque))"
  using deduplicate_abstract [of xs]
  unfolding dedup_key_eq key_hashable_eq .

lemma keyed_findings_hashable:
  "\<forall>v \<in> set keyed_findings.
     hashable (dict_get v ''type'' (PStr [])) \<and> hashable (dict_get v ''url'' (PStr [])) \<and>
     hashable (dict_get v ''parameter'' (PStr []))"
  by code_simp

lemma keyed_findings_dedup:
  "deduplicate keyed_findings =
     Inr [keyed_findings ! 0, keyed_findings ! 1, keyed_findings ! 3, keyed_findings ! 4]"
  by code_simp

lemma keyed_findings_first:
  "find (\<lambda>w. (eq_class (dict_get w ''type'' (PStr [])),
              eq_class (dict_get w ''url'' (PStr [])),
              eq_class (dict_get w ''parameter'' (PStr [])))
             = (PStr ''xss'', PStr ''http://t/a'', PStr ''q'')) keyed_findings
   = Some (keyed_findings ! 0)"
  by code_simp

text \<open>
  Of the five example findings the repeat of the first is dropped and the four distinct
  keys stay; the only finding left with the key of the first is the first itself.
\<close>

theorem deduplicate_idempotent_first_witness:
  "deduplicate_twice keyed_findings =
     Inr [keyed_findings ! 0, keyed_findings ! 1, keyed_findings ! 3, keyed_findings ! 4] \<and>
   filter (\<lambda>w. (eq_class (dict_get w ''type'' (PStr [])),
                eq_class (dict_get w ''url'' (PStr [])),
                eq_class (dict_get w ''parameter'' (PStr [])))
               = (PStr ''xss'', PStr ''http://t/a'', PStr ''q''))
     [keyed_findings ! 0, keyed_findings ! 1, keyed_findings ! 3, keyed_findings ! 4]
   = [keyed_findings ! 0]"
proof -
  note t = deduplicate_idempotent_first [of keyed_findings]
  from t have twice: "deduplicate_twice keyed_findings = deduplicate keyed_findings"
    by (rule conjunct1)
  from t have "if \<forall>v \<in> set keyed_findings.
         hashable (dict_get v ''type'' (PStr [])) \<and> hashable (dict_get v ''url'' (PStr [])) \<and>
         hashable (dict_get v ''parameter'' (PStr []))
    then \<exists>ys. deduplicate keyed_findings = Inr ys \<and> set ys \<subseteq> set keyed_findings \<and>
           (\<forall>k v.
              find (\<lambda>w. (eq_class (dict_get w ''type'' (PStr [])),
                          eq_class (dict_get w ''url'' (PStr [])),
                          eq_class (dict_get w ''parameter'' (PStr []))) = k) keyed_findings = Some v
              \<longrightarrow> filter (\<lambda>w. (eq_class (dict_get w ''type'' (PStr [])),
                                eq_class (dict_get w ''url'' (PStr [])),
                                eq_class (dict_get w ''parameter'' (PStr []))) = k) ys = [v])
    else deduplicate keyed_findings = Inl (TypeError Opaque)"
    by (rule conjunct2)
  then obtain ys where
    ys: "deduplicate keyed_findings = Inr ys"
    and first: "\<forall>k v.
       find (\<lambda>w. (eq_class (dict_get w ''type'' (PStr [])),
                   eq_class (dict_get w ''url'' (PStr [])),
                   eq_class (dict_get w ''parameter'' (PStr []))) = k) keyed_findings = Some v
       \<longrightarrow> filter (\<lambda>w. (eq_class (dict_get w ''type'' (PStr [])),
                         eq_class (dict_get w ''url'' (PStr [])),
                         eq_class (dict_get w ''parameter'' (PStr []))) = k) ys = [v]"
    unfolding if_P [OF keyed_findings_hashable] by (elim conjE exE)
  from ys keyed_findings_dedup
  have e: "ys = [keyed_findings ! 0, keyed_findings ! 1, keyed_findings ! 3, keyed_findings ! 4]"
    by (simp only: sum.inject)
  from first keyed_findings_first
  have "filter (\<lambda>w. (eq_class (dict_get w ''type'' (PStr [])),
                eq_class (dict_get w ''url'' (PStr [])),
                eq_class (dict_get w ''parameter'' (PStr [])))
               = (PStr ''xss'', PStr ''http://t/a'', PStr ''q'')) ys = [keyed_findings ! 0]"
    by (elim allE impE) assumption+
  with e twice keyed_findings_dedup show ?thesis
    by (simp only: simp_thms)
qed

section \<open>Properties of the executor\<close>

subsection \<open>Counting events\<close>

lemma tally_emit [simp]: "tally P (emit ev s) = tally P s + of_bool (P ev)"
  by (simp add: tally_def emit_def)

lemma tally_interact [simp]: "tally P (interact e ev s) = tally P s + of_bool (P ev)"
  by (simp add: tally_def interact_def)

lemma tally_sleep [simp]: "tally P (sleep n s) = tally P s"
  by (simp add: tally_def sleep_def)

lemma tally_update [simp]:
  "tally P (s\<lparr>container := c\<rparr>) = tally P s"
  "tally P (s\<lparr>zap_url := z\<rparr>) = tally P s"
  "tally P (s\<lparr>scanner := b\<rparr>) = tally P s"
  "tally P (s\<lparr>results := res\<rparr>) = tally P s"
  by (simp_all add: tally_def)


lemma quietD:
  assumes "quiet P"
  shows "\<not> P (Docker op)" "\<not> P WriteFile" "\<not> P (Log l m)"
    "\<not> P (Http ''JSON/core/view/version/'' ps)"
    "\<not> P (Http ''JSON/core/action/shutdown/'' ps)"
    "\<not> P (Call M_initialize_scanner)" "\<not> P (Call M_start_container)"
  using assms unfolding quiet_def by blast+

lemma tally_docker_call:
  assumes "quiet P" shows "docker_call e op s = (r, s1) \<Longrightarrow> tally P s1 = tally P s"
  by (auto simp: docker_call_def quietD [OF assms])

lemma tally_write_file:
  assumes "quiet P" shows "write_file e s = (r, s1) \<Longrightarrow> tally P s1 = tally P s"
  by (auto simp: write_file_def quietD [OF assms])

lemma tally_http_version:
  assumes "quiet P"
  shows "http_get e ''JSON/core/view/version/'' ps s = (r, s1) \<Longrightarrow> tally P s1 = tally P s"
  by (auto simp: http_get_def quietD [OF assms])

lemma tally_http_shutdown:
  assumes "quiet P"
  shows "http_get e ''JSON/core/action/shutdown/'' ps s = (r, s1) \<Longrightarrow> tally P s1 = tally P s"
  by (auto simp: http_get_def quietD [OF assms])

lemma tally_probe:
  assumes q: "quiet P" and p: "probe e s = (r, s1)"
  shows "tally P s1 = tally P s"
proof -
  obtain x s2 where h: "http_get e ''JSON/core/view/version/'' [(''apikey'', PStr zap_api_key)] s = (x, s2)"
    by (cases "http_get e ''JSON/core/view/version/'' [(''apikey'', PStr zap_api_key)] s")
  have t: "tally P s2 = tally P s" by (rule tally_http_version [OF q h])
  from p have "s1 = s2"
    unfolding probe_def h by (simp split: sum.splits if_splits)
  with t show ?thesis by simp
qed

lemma shutdown_path: "\<not> str_contains ''core/action/shutdown/'' ''/other/''"
  by code_simp

lemma api_call_shutdown_unfold:
  "api_call e ''core/action/shutdown/'' params s =
     (if zap_url s = None then (Inl (Exception (Msg ''ZAP container not started'')), s)
      else and_then
             (http_get e ''JSON/core/action/shutdown/'' (params @ [(''apikey'', PStr zap_api_key)]) s)
             (\<lambda>resp s1.
                if 400 \<le> status_code resp \<and> status_code resp < 600
                then (Inl (RequestException Opaque), s1)
                else (json resp, s1)))"
  unfolding api_call_def Let_def using shutdown_path by simp

lemma tally_api_call_shutdown:
  assumes q: "quiet P" and a: "api_call e ''core/action/shutdown/'' params s = (r, s1)"
  shows "tally P s1 = tally P s"
proof (cases "zap_url s = None")
  case True
  with a show ?thesis by (simp add: api_call_shutdown_unfold)
next
  case False
  obtain x s2 where h: "http_get e ''JSON/core/action/shutdown/'' (params @ [(''apikey'', PStr zap_api_key)]) s = (x, s2)"
    by (cases "http_get e ''JSON/core/action/shutdown/'' (params @ [(''apikey'', PStr zap_api_key)]) s")
  have t: "tally P s2 = tally P s" by (rule tally_http_shutdown [OF q h])
  from a False have "s1 = s2"
    unfolding api_call_shutdown_unfold h and_then_def by (simp split: sum.splits if_splits)
  with t show ?thesis by simp
qed

text \<open>What holds between the states before and after a loop, from what holds for one round.\<close>

lemma wait_for_zap_loop_rel:
  assumes refl: "\<And>s. R s s" and trans: "\<And>a b c. R a b \<Longrightarrow> R b c \<Longrightarrow> R a c"
    and body: "\<And>e s r s1. probe e s = (r, s1) \<Longrightarrow> R s s1"
    and pause: "\<And>s. R s (sleep 2 s)"
  shows "wait_for_zap_loop e start_time timeout s = (r, s1) \<Longrightarrow> R s s1"
proof (induction e start_time timeout s rule: wait_for_zap_loop.induct)
  case (1 e start_time timeout s)
  show ?case
  proof (cases "clock s - start_time < timeout")
    case False
    with "1.prems" show ?thesis by (simp add: wait_for_zap_loop.simps refl)
  next
    case True
    obtain p s2 where p: "probe e s = (p, s2)" by (cases "probe e s")
    have c: "R s s2" by (rule body [OF p])
    show ?thesis
    proof (cases p)
      case (Inl err)
      with True p "1.prems" c show ?thesis by (simp add: wait_for_zap_loop.simps)
    next
      case (Inr ready)
      show ?thesis
      proof (cases ready)
        case True
        with \<open>clock s - start_time < timeout\<close> Inr p "1.prems" c show ?thesis
          by (simp add: wait_for_zap_loop.simps)
      next
        case False
        with \<open>clock s - start_time < timeout\<close> Inr p "1.prems"
        have "wait_for_zap_loop e start_time timeout (sleep 2 s2) = (r, s1)"
          by (simp add: wait_for_zap_loop.simps)
        from "1.IH" [OF \<open>clock s - start_time < timeout\<close> p [symmetric] _ False this] Inr
        have "R (sleep 2 s2) s1" by simp
        with c pause [of s2] show ?thesis by (blast intro: trans)
      qed
    qed
  qed
qed


lemma tally_wait_for_zap:
  assumes q: "quiet P" and w: "wait_for_zap e timeout s = (r, s1)"
  shows "tally P s1 = tally P s"
proof -
  from w have "wait_for_zap_loop e (clock s) timeout s = (r, s1)"
    by (simp add: wait_for_zap_def)
  then show ?thesis
    by (rule wait_for_zap_loop_rel [where R = "\<lambda>a b. tally P b = tally P a", rotated -1])
       (simp_all add: tally_probe [OF q])
qed

lemma tally_remove_existing:
  assumes q: "quiet P"
  shows "remove_existing e s = (r, s1) \<Longrightarrow> tally P s1 = tally P s"
  by (auto simp: remove_existing_def and_then_def catch_all_def
           split: if_splits sum.splits prod.splits dest!: tally_docker_call [OF q])

lemma tally_start_container:
  assumes q: "quiet P"
  shows "start_container e sid s = (r, s1) \<Longrightarrow> tally P s1 = tally P s"
  by (auto simp: start_container_def and_then_def catch_all_def quietD [OF q]
           split: if_splits sum.splits prod.splits
           dest!: tally_docker_call [OF q] tally_remove_existing [OF q] tally_wait_for_zap [OF q])

lemma tally_initialize_scanner:
  assumes q: "quiet P"
  shows "initialize_scanner e cfg s = (r, s1) \<Longrightarrow> tally P s1 = tally P s"
  by (auto simp: initialize_scanner_def and_then_def quietD [OF q]
           split: if_splits sum.splits prod.splits
           dest!: tally_docker_call [OF q] tally_start_container [OF q])

lemma tally_get_container_logs:
  assumes q: "quiet P"
  shows "get_container_logs e s = (r, s1) \<Longrightarrow>
           tally P s1 = tally P s + of_bool (P (Call M_get_container_logs))"
  by (auto simp: get_container_logs_def Let_def catch_all_def quietD [OF q]
           split: if_splits sum.splits prod.splits dest!: tally_docker_call [OF q])

lemma tally_shutdown:
  assumes q: "quiet P"
  shows "shutdown e s = (r, s1) \<Longrightarrow>
           tally P s1 = tally P s + of_bool (P (Call M_shutdown))"
  by (auto simp: shutdown_def and_then_def catch_all_def quietD [OF q]
           split: if_splits sum.splits prod.splits dest!: tally_api_call_shutdown [OF q])

lemma tally_stop_container:
  assumes q: "quiet P"
  shows "stop_container e s = (r, s1) \<Longrightarrow>
           tally P s1 = tally P s + of_bool (P (Call M_stop_container))"
  by (auto simp: stop_container_def Let_def and_then_def catch_all_def quietD [OF q]
           split: if_splits sum.splits prod.splits dest!: tally_docker_call [OF q])

lemma scanner_emit [simp]: "scanner (emit ev s) = scanner s"
  by (simp add: emit_def)

lemma get_container_logs_returns: "\<exists>logs. fst (get_container_logs e s) = Inr logs"
  by (simp add: get_container_logs_def Let_def catch_all_def docker_call_def
           split: sum.splits)

lemma shutdown_returns: "fst (shutdown e s) = Inr ()"
  by (simp add: shutdown_def and_then_def catch_all_def split: prod.splits sum.splits)

lemma stop_container_returns: "fst (stop_container e s) = Inr ()"
  by (simp add: stop_container_def Let_def and_then_def catch_all_def
           split: prod.splits sum.splits)

text \<open>
  \<open>_cleanup\<close> step by step: with a scanner it fetches the logs, writes them, shuts the
  engine down and stops the container, each once and whatever the earlier steps
  answered, and it returns normally.
\<close>

lemma cleanup_steps:
  assumes sc: "scanner s"
  obtains logs sa w sb sc sd where
    "get_container_logs e (emit (Call M_cleanup) s) = (Inr logs, sa)"
    "write_file e sa = (w, sb)"
    "shutdown e (case w of Inl err \<Rightarrow> emit (Log Error ''Error saving logs'') sb | Inr u \<Rightarrow> sb)
       = (Inr (), sc)"
    "stop_container e sc = (Inr (), sd)"
    "cleanup e s = (Inr (), sd)"
proof -
  obtain logs sa where g: "get_container_logs e (emit (Call M_cleanup) s) = (Inr logs, sa)"
    using get_container_logs_returns [of e "emit (Call M_cleanup) s"]
    by (cases "get_container_logs e (emit (Call M_cleanup) s)") auto
  obtain w sb where w: "write_file e sa = (w, sb)"
    by (cases "write_file e sa")
  let ?sA = "case w of Inl err \<Rightarrow> emit (Log Error ''Error saving logs'') sb | Inr u \<Rightarrow> sb"
  obtain sc where sh: "shutdown e ?sA = (Inr (), sc)"
    using shutdown_returns [of e ?sA] by (cases "shutdown e ?sA") auto
  obtain sd where st: "stop_container e sc = (Inr (), sd)"
    using stop_container_returns [of e sc] by (cases "stop_container e sc") auto
  have "cleanup e s = (Inr (), sd)"
  proof (cases w)
    case (Inl err)
    with sh have sh': "shutdown e (emit (Log Error ''Error saving logs'') sb) = (Inr (), sc)"
      by simp
    show ?thesis
      unfolding cleanup_def Let_def using sc g w Inl sh' st
      by (simp add: and_then_def catch_all_def)
  next
    case (Inr u)
    with sh have sh': "shutdown e sb = (Inr (), sc)" by simp
    show ?thesis
      unfolding cleanup_def Let_def using sc g w Inr sh' st
      by (simp add: and_then_def catch_all_def)
  qed
  with g w sh st show ?thesis by (rule that)
qed

lemma cleanup_returns: "fst (cleanup e s) = Inr ()"
proof (cases "scanner s")
  case True
  then show ?thesis by (rule cleanup_steps [of s e]) simp
next
  case False
  then show ?thesis by (simp add: cleanup_def Let_def)
qed

lemma tally_cleanup:
  assumes q: "quiet P" and c: "cleanup e s = (r, s1)"
  shows "tally P s1 =
           tally P s + of_bool (P (Call M_cleanup)) +
           (if scanner s
            then of_bool (P (Call M_get_container_logs)) + of_bool (P (Call M_shutdown)) +
                 of_bool (P (Call M_stop_container))
            else 0)"
proof (cases "scanner s")
  case False
  with c show ?thesis by (auto simp: cleanup_def Let_def)
next
  case True
  from True obtain logs sa w sb sc sd where
    g: "get_container_logs e (emit (Call M_cleanup) s) = (Inr logs, sa)" and
    w: "write_file e sa = (w, sb)" and
    sh: "shutdown e (case w of Inl err \<Rightarrow> emit (Log Error ''Error saving logs'') sb | Inr u \<Rightarrow> sb)
       = (Inr (), sc)" and
    st: "stop_container e sc = (Inr (), sd)" and
    cl: "cleanup e s = (Inr (), sd)"
    by (rule cleanup_steps)
  from c cl have s1: "s1 = sd" by simp
  have a: "tally P sa = tally P s + of_bool (P (Call M_cleanup)) + of_bool (P (Call M_get_container_logs))"
    using tally_get_container_logs [OF q g] by simp
  have b: "tally P sb = tally P sa" by (rule tally_write_file [OF q w])
  have b': "tally P (case w of Inl err \<Rightarrow> emit (Log Error ''Error saving logs'') sb | Inr u \<Rightarrow> sb)
              = tally P sb"
    by (cases w) (simp_all add: quietD [OF q])
  have d: "tally P sc = tally P sb + of_bool (P (Call M_shutdown))"
    using tally_shutdown [OF q sh] b' by simp
  have f: "tally P sd = tally P sc + of_bool (P (Call M_stop_container))"
    by (rule tally_stop_container [OF q st])
  from True s1 a b d f show ?thesis by simp
qed

subsection \<open>The phases leave cleanup alone\<close>

lemma cleanup_onlyD:
  assumes "cleanup_only P"
  shows "\<not> P (Docker op)" "\<not> P WriteFile" "\<not> P (Log l m)" "\<not> P (Http path ps)"
    "\<not> P (Call M_initialize_scanner)" "\<not> P (Call M_start_container)"
    "\<not> P (Call M_run_spider_scan)" "\<not> P (Call M_spider_scan)" "\<not> P (Call M_wait_for_spider)"
    "\<not> P (Call M_run_ajax_spider_scan)" "\<not> P (Call M_ajax_spider_scan)"
    "\<not> P (Call M_wait_for_passive_scan)" "\<not> P (Call M_get_scan_progress)"
    "\<not> P (Call M_run_active_scan)" "\<not> P (Call M_active_scan)"
    "\<not> P (Call M_wait_for_active_scan)" "\<not> P (Call M_get_alerts)"
  using assms unfolding cleanup_only_def by blast+

lemma cleanup_only_quiet: "cleanup_only P \<Longrightarrow> quiet P"
  unfolding quiet_def by (simp add: cleanup_onlyD)

lemma cl_http_get:
  assumes q: "cleanup_only P"
  shows "http_get e path ps s = (r, s1) \<Longrightarrow> tally P s1 = tally P s"
  by (auto simp: cleanup_onlyD [OF q] http_get_def)

lemma cl_api_call:
  assumes q: "cleanup_only P"
  shows "api_call e endpoint ps s = (r, s1) \<Longrightarrow> tally P s1 = tally P s"
  by (auto simp: cleanup_onlyD [OF q] api_call_def and_then_def Let_def split: if_splits sum.splits prod.splits
           dest!: cl_http_get [OF q] )

lemma cl_status_poll:
  assumes q: "cleanup_only P"
  shows "status_poll e endpoint sid s = (r, s1) \<Longrightarrow> tally P s1 = tally P s"
  by (auto simp: cleanup_onlyD [OF q] status_poll_def and_then_def split: sum.splits prod.splits dest!: cl_api_call [OF q] )

lemma cl_spider_scan:
  assumes q: "cleanup_only P"
  shows "spider_scan e target d c s = (r, s1) \<Longrightarrow> tally P s1 = tally P s"
  by (auto simp: cleanup_onlyD [OF q] spider_scan_def and_then_def split: sum.splits prod.splits dest!: cl_api_call [OF q] )

lemma cl_ajax_spider_scan:
  assumes q: "cleanup_only P"
  shows "ajax_spider_scan e target d s = (r, s1) \<Longrightarrow> tally P s1 = tally P s"
  by (auto simp: cleanup_onlyD [OF q] ajax_spider_scan_def and_then_def split: sum.splits prod.splits dest!: cl_api_call [OF q] )

lemma cl_active_scan:
  assumes q: "cleanup_only P"
  shows "active_scan e target s = (r, s1) \<Longrightarrow> tally P s1 = tally P s"
  by (auto simp: cleanup_onlyD [OF q] active_scan_def and_then_def split: sum.splits prod.splits dest!: cl_api_call [OF q] )

lemma cl_get_alerts:
  assumes q: "cleanup_only P"
  shows "get_alerts e target s = (r, s1) \<Longrightarrow> tally P s1 = tally P s"
  by (auto simp: cleanup_onlyD [OF q] get_alerts_def and_then_def split: sum.splits prod.splits if_splits dest!: cl_api_call [OF q] )

lemma cl_get_scan_progress:
  assumes q: "cleanup_only P"
  shows "get_scan_progress e s = (r, s1) \<Longrightarrow> tally P s1 = tally P s"
  by (auto simp: cleanup_onlyD [OF q] get_scan_progress_def and_then_def catch_all_def
           split: sum.splits prod.splits dest!: cl_api_call [OF q] )

lemma wait_for_spider_loop_rel:
  assumes refl: "\<And>s. R s s" and trans: "\<And>a b c. R a b \<Longrightarrow> R b c \<Longrightarrow> R a c"
    and body: "\<And>e sid s r s1. status_poll e ''spider/view/status/'' sid s = (r, s1) \<Longrightarrow> R s s1"
    and pause: "\<And>s. R s (sleep 5 s)"
    and final: "\<And>s. R s (emit (Log Error ''Spider scan timed out'') s)"
  shows "wait_for_spider_loop e sid start_time timeout s = (r, s1) \<Longrightarrow> R s s1"
proof (induction e sid start_time timeout s rule: wait_for_spider_loop.induct)
  case (1 e sid start_time timeout s)
  show ?case
  proof (cases "clock s - start_time < timeout")
    case False
    with "1.prems" show ?thesis by (auto simp: wait_for_spider_loop.simps final)
  next
    case True
    obtain p s2 where p: "status_poll e ''spider/view/status/'' sid s = (p, s2)"
      by (cases "status_poll e ''spider/view/status/'' sid s")
    have c: "R s s2" by (rule body [OF p])
    show ?thesis
    proof (cases p)
      case (Inl err)
      with True p "1.prems" c show ?thesis by (simp add: wait_for_spider_loop.simps)
    next
      case (Inr status)
      show ?thesis
      proof (cases "100 \<le> status")
        case True
        with \<open>clock s - start_time < timeout\<close> Inr p "1.prems" c show ?thesis
          by (simp add: wait_for_spider_loop.simps)
      next
        case False
        with \<open>clock s - start_time < timeout\<close> Inr p "1.prems"
        have "wait_for_spider_loop e sid start_time timeout (sleep 5 s2) = (r, s1)"
          by (simp add: wait_for_spider_loop.simps)
        from "1.IH" [OF \<open>clock s - start_time < timeout\<close> p [symmetric] _ False this] Inr
        have "R (sleep 5 s2) s1" by simp
        with c pause [of s2] show ?thesis by (blast intro: trans)
      qed
    qed
  qed
qed

lemma wait_for_active_scan_loop_rel:
  assumes refl: "\<And>s. R s s" and trans: "\<And>a b c. R a b \<Longrightarrow> R b c \<Longrightarrow> R a c"
    and body: "\<And>e sid s r s1. status_poll e ''ascan/view/status/'' sid s = (r, s1) \<Longrightarrow> R s s1"
    and pause: "\<And>s. R s (sleep 10 s)"
    and final: "\<And>s. R s (emit (Log Error ''Active scan timed out'') s)"
  shows "wait_for_active_scan_loop e sid start_time timeout s = (r, s1) \<Longrightarrow> R s s1"
proof (induction e sid start_time timeout s rule: wait_for_active_scan_loop.induct)
  case (1 e sid start_time timeout s)
  show ?case
  proof (cases "clock s - start_time < timeout")
    case False
    with "1.prems" show ?thesis by (auto simp: wait_for_active_scan_loop.simps final)
  next
    case True
    obtain p s2 where p: "status_poll e ''ascan/view/status/'' sid s = (p, s2)"
      by (cases "status_poll e ''ascan/view/status/'' sid s")
    have c: "R s s2" by (rule body [OF p])
    show ?thesis
    proof (cases p)
      case (Inl err)
      with True p "1.prems" c show ?thesis by (simp add: wait_for_active_scan_loop.simps)
    next
      case (Inr status)
      show ?thesis
      proof (cases "100 \<le> status")
        case True
        with \<open>clock s - start_time < timeout\<close> Inr p "1.prems" c show ?thesis
          by (simp add: wait_for_active_scan_loop.simps)
      next
        case False
        with \<open>clock s - start_time < timeout\<close> Inr p "1.prems"
        have "wait_for_active_scan_loop e sid start_time timeout (sleep 10 s2) = (r, s1)"
          by (simp add: wait_for_active_scan_loop.simps)
        from "1.IH" [OF \<open>clock s - start_time < timeout\<close> p [symmetric] _ False this] Inr
        have "R (sleep 10 s2) s1" by simp
        with c pause [of s2] show ?thesis by (blast intro: trans)
      qed
    qed
  qed
qed

lemma wait_for_passive_scan_loop_rel:
  assumes refl: "\<And>s. R s s" and trans: "\<And>a b c. R a b \<Longrightarrow> R b c \<Longrightarrow> R a c"
    and body: "\<And>e s r s1. get_scan_progress e s = (r, s1) \<Longrightarrow> R s s1"
    and pause: "\<And>s. R s (sleep 5 s)"
    and final: "\<And>s. R s (emit (Log Warning ''Passive scan timeout reached'') s)"
  shows "wait_for_passive_scan_loop e start_time timeout s = (r, s1) \<Longrightarrow> R s s1"
proof (induction e start_time timeout s rule: wait_for_passive_scan_loop.induct)
  case (1 e start_time timeout s)
  show ?case
  proof (cases "clock s - start_time < timeout")
    case False
    with "1.prems" show ?thesis by (auto simp: wait_for_passive_scan_loop.simps final)
  next
    case True
    obtain p s2 where p: "get_scan_progress e s = (p, s2)"
      by (cases "get_scan_progress e s")
    have c: "R s s2" by (rule body [OF p])
    show ?thesis
    proof (cases p)
      case (Inl err)
      with True p "1.prems" c show ?thesis by (simp add: wait_for_passive_scan_loop.simps)
    next
      case (Inr progress)
      show ?thesis
      proof (cases "truthy (dict_get progress ''passive_scan_complete'' (PBool False))")
        case True
        with \<open>clock s - start_time < timeout\<close> Inr p "1.prems" c show ?thesis
          by (simp add: wait_for_passive_scan_loop.simps)
      next
        case False
        with \<open>clock s - start_time < timeout\<close> Inr p "1.prems"
        have "wait_for_passive_scan_loop e start_time timeout (sleep 5 s2) = (r, s1)"
          by (simp add: wait_for_passive_scan_loop.simps)
        from "1.IH" [OF \<open>clock s - start_time < timeout\<close> p [symmetric] _ False this] Inr
        have "R (sleep 5 s2) s1" by simp
        with c pause [of s2] show ?thesis by (blast intro: trans)
      qed
    qed
  qed
qed

lemma cl_wait_for_spider:
  assumes q: "cleanup_only P" and w: "wait_for_spider e sid timeout s = (r, s1)"
  shows "tally P s1 = tally P s"
proof -
  from w have "wait_for_spider_loop e sid (clock (emit (Call M_wait_for_spider) s)) timeout
      (emit (Call M_wait_for_spider) s) = (r, s1)"
    by (simp add: wait_for_spider_def Let_def)
  then have "tally P s1 = tally P (emit (Call M_wait_for_spider) s)"
    by (rule wait_for_spider_loop_rel [where R = "\<lambda>a b. tally P b = tally P a", rotated -1])
       (simp_all add: cl_status_poll [OF q] cleanup_onlyD [OF q])
  then show ?thesis by (simp add: cleanup_onlyD [OF q])
qed

lemma cl_wait_for_active_scan:
  assumes q: "cleanup_only P" and w: "wait_for_active_scan e sid timeout s = (r, s1)"
  shows "tally P s1 = tally P s"
proof -
  from w have "wait_for_active_scan_loop e sid (clock (emit (Call M_wait_for_active_scan) s)) timeout
      (emit (Call M_wait_for_active_scan) s) = (r, s1)"
    by (simp add: wait_for_active_scan_def Let_def)
  then have "tally P s1 = tally P (emit (Call M_wait_for_active_scan) s)"
    by (rule wait_for_active_scan_loop_rel [where R = "\<lambda>a b. tally P b = tally P a", rotated -1])
       (simp_all add: cl_status_poll [OF q] cleanup_onlyD [OF q])
  then show ?thesis by (simp add: cleanup_onlyD [OF q])
qed

lemma cl_wait_for_passive_scan:
  assumes q: "cleanup_only P" and w: "wait_for_passive_scan e timeout s = (r, s1)"
  shows "tally P s1 = tally P s"
proof -
  from w have "wait_for_passive_scan_loop e (clock (emit (Call M_wait_for_passive_scan) s)) timeout
      (emit (Call M_wait_for_passive_scan) s) = (r, s1)"
    by (simp add: wait_for_passive_scan_def Let_def)
  then have "tally P s1 = tally P (emit (Call M_wait_for_passive_scan) s)"
    by (rule wait_for_passive_scan_loop_rel [where R = "\<lambda>a b. tally P b = tally P a", rotated -1])
       (simp_all add: cl_get_scan_progress [OF q] cleanup_onlyD [OF q])
  then show ?thesis by (simp add: cleanup_onlyD [OF q])
qed

lemma cl_run_spider_scan:
  assumes q: "cleanup_only P"
  shows "run_spider_scan e cfg s = (r, s1) \<Longrightarrow> tally P s1 = tally P s"
  by (auto simp: cleanup_onlyD [OF q] run_spider_scan_def and_then_def Let_def split: sum.splits prod.splits if_splits
           dest!: cl_spider_scan [OF q] cl_wait_for_spider [OF q] )

lemma cl_run_ajax_spider_scan:
  assumes q: "cleanup_only P"
  shows "run_ajax_spider_scan e cfg s = (r, s1) \<Longrightarrow> tally P s1 = tally P s"
  by (auto simp: cleanup_onlyD [OF q] run_ajax_spider_scan_def and_then_def split: sum.splits prod.splits
           dest!: cl_ajax_spider_scan [OF q] )

lemma cl_run_active_scan:
  assumes q: "cleanup_only P"
  shows "run_active_scan e cfg s = (r, s1) \<Longrightarrow> tally P s1 = tally P s"
  by (auto simp: cleanup_onlyD [OF q] run_active_scan_def and_then_def Let_def split: sum.splits prod.splits if_splits
           dest!: cl_active_scan [OF q] cl_wait_for_active_scan [OF q] )

lemma cl_scan_phases:
  assumes q: "cleanup_only P"
  shows "scan_phases e cfg start_time s = (r, s1) \<Longrightarrow> tally P s1 = tally P s"
  by (auto simp: cleanup_onlyD [OF q] scan_phases_def and_then_def Let_def split: sum.splits prod.splits if_splits
           dest!: cl_run_spider_scan [OF q] cl_run_ajax_spider_scan [OF q] cl_wait_for_passive_scan [OF q] cl_run_active_scan [OF q] cl_get_alerts [OF q] )

lemma cl_scan_body:
  assumes q: "cleanup_only P"
  shows "scan_body e cfg s = (r, s1) \<Longrightarrow> tally P s1 = tally P s"
  by (auto simp: cleanup_onlyD [OF q] scan_body_def and_then_def Let_def split: sum.splits prod.splits if_splits
           dest!: tally_initialize_scanner [OF cleanup_only_quiet [OF q]] cl_scan_phases [OF q])

lemma cl_execute_scan_try:
  assumes q: "cleanup_only P"
  shows "execute_scan_try e cfg s = (r, s1) \<Longrightarrow> tally P s1 = tally P s"
  by (auto simp: cleanup_onlyD [OF q] execute_scan_try_def catch_all_def Let_def split: sum.splits prod.splits
           dest!: cl_scan_body [OF q] )

subsection \<open>Cleanup\<close>

lemma results_emit [simp]: "results (emit ev s) = results s"
  by (simp add: emit_def)

lemma results_interact [simp]: "results (interact e ev s) = results s"
  by (simp add: interact_def)

lemma results_sleep [simp]: "results (sleep n s) = results s"
  by (simp add: sleep_def)

lemma results_http_get: "http_get e path ps s = (r, s1) \<Longrightarrow> results s1 = results s"
  by (auto simp: http_get_def)

lemma results_api_call: "api_call e endpoint ps s = (r, s1) \<Longrightarrow> results s1 = results s"
  by (auto simp: api_call_def and_then_def Let_def split: if_splits sum.splits prod.splits
           dest!: results_http_get)

lemma results_docker_call: "docker_call e op s = (r, s1) \<Longrightarrow> results s1 = results s"
  by (auto simp: docker_call_def)

lemma results_write_file: "write_file e s = (r, s1) \<Longrightarrow> results s1 = results s"
  by (auto simp: write_file_def)

lemma results_get_container_logs:
  "get_container_logs e s = (r, s1) \<Longrightarrow> results s1 = results s"
  by (auto simp: get_container_logs_def Let_def catch_all_def
           split: if_splits sum.splits prod.splits dest!: results_docker_call)

lemma results_shutdown: "shutdown e s = (r, s1) \<Longrightarrow> results s1 = results s"
  by (auto simp: shutdown_def and_then_def catch_all_def
           split: if_splits sum.splits prod.splits dest!: results_api_call)

lemma results_stop_container: "stop_container e s = (r, s1) \<Longrightarrow> results s1 = results s"
  by (auto simp: stop_container_def Let_def and_then_def catch_all_def
           split: if_splits sum.splits prod.splits dest!: results_docker_call)

lemma results_cleanup:
  assumes c: "cleanup e s = (r, s1)"
  shows "results s1 = results s"
proof (cases "scanner s")
  case False
  with c show ?thesis by (auto simp: cleanup_def Let_def)
next
  case True
  from True obtain logs sa w sb sc sd where
    g: "get_container_logs e (emit (Call M_cleanup) s) = (Inr logs, sa)" and
    w: "write_file e sa = (w, sb)" and
    sh: "shutdown e (case w of Inl err \<Rightarrow> emit (Log Error ''Error saving logs'') sb | Inr u \<Rightarrow> sb)
       = (Inr (), sc)" and
    st: "stop_container e sc = (Inr (), sd)" and
    cl: "cleanup e s = (Inr (), sd)"
    by (rule cleanup_steps)
  from c cl have s1: "s1 = sd" by simp
  have "results (case w of Inl err \<Rightarrow> emit (Log Error ''Error saving logs'') sb | Inr u \<Rightarrow> sb)
          = results sb"
    by (cases w) simp_all
  with results_get_container_logs [OF g] results_write_file [OF w] results_shutdown [OF sh]
    results_stop_container [OF st] s1
  show ?thesis by simp
qed

lemma execute_scan_unfold:
  "execute_scan e cfg s =
     (fst (execute_scan_try e cfg s), snd (cleanup e (snd (execute_scan_try e cfg s))))"
proof -
  obtain r s1 where t: "execute_scan_try e cfg s = (r, s1)"
    by (cases "execute_scan_try e cfg s")
  obtain s2 where c: "cleanup e s1 = (Inr (), s2)"
    using cleanup_returns [of e s1] by (cases "cleanup e s1") auto
  show ?thesis by (simp add: execute_scan_def try_finally_def t c)
qed

lemma tally_execute_scan:
  assumes q: "cleanup_only P"
  shows "tally P (snd (execute_scan e cfg s)) =
           tally P s + of_bool (P (Call M_cleanup)) +
           (if scanner (snd (execute_scan_try e cfg s))
            then of_bool (P (Call M_get_container_logs)) + of_bool (P (Call M_shutdown)) +
                 of_bool (P (Call M_stop_container))
            else 0)"
proof -
  obtain r s1 where t: "execute_scan_try e cfg s = (r, s1)"
    by (cases "execute_scan_try e cfg s")
  obtain u s2 where c: "cleanup e s1 = (u, s2)"
    by (cases "cleanup e s1")
  from cl_execute_scan_try [OF q t] tally_cleanup [OF cleanup_only_quiet [OF q] c]
  show ?thesis by (simp add: execute_scan_unfold t c)
qed

text \<open>
  Claim C2. In every run of \<open>execute_scan\<close>, from any state and against any environment,
  \<open>_cleanup\<close> is entered exactly once; when the scanner object exists at that point,
  fetching the container logs, the shutdown of the engine and the stopping of the
  container are each entered exactly once too, and otherwise not at all. What
  \<open>execute_scan\<close> returns or raises, and the result record with its status, are those of
  the \<^verbatim>\<open>try\<close> block with its \<^verbatim>\<open>except\<close> clause: nothing that goes wrong in \<open>_cleanup\<close> changes
  them.
\<close>

theorem execute_scan_cleanup_once:
  "tally (\<lambda>ev. ev = Call M_cleanup) (snd (execute_scan e cfg s))
     = tally (\<lambda>ev. ev = Call M_cleanup) s + 1 \<and>
   tally (\<lambda>ev. ev = Call M_get_container_logs) (snd (execute_scan e cfg s))
     = tally (\<lambda>ev. ev = Call M_get_container_logs) s
       + of_bool (scanner (snd (execute_scan_try e cfg s))) \<and>
   tally (\<lambda>ev. ev = Call M_shutdown) (snd (execute_scan e cfg s))
     = tally (\<lambda>ev. ev = Call M_shutdown) s + of_bool (scanner (snd (execute_scan_try e cfg s))) \<and>
   tally (\<lambda>ev. ev = Call M_stop_container) (snd (execute_scan e cfg s))
     = tally (\<lambda>ev. ev = Call M_stop_container) s
       + of_bool (scanner (snd (execute_scan_try e cfg s))) \<and>
   fst (execute_scan e cfg s) = fst (execute_scan_try e cfg s) \<and>
   get_scan_results (snd (execute_scan e cfg s)) = get_scan_results (snd (execute_scan_try e cfg s))"
proof -
  have a: "tally (\<lambda>ev. ev = Call M_cleanup) (snd (execute_scan e cfg s))
     = tally (\<lambda>ev. ev = Call M_cleanup) s + 1"
    by (simp add: tally_execute_scan cleanup_only_def)
  have b: "tally (\<lambda>ev. ev = Call M_get_container_logs) (snd (execute_scan e cfg s))
     = tally (\<lambda>ev. ev = Call M_get_container_logs) s
       + of_bool (scanner (snd (execute_scan_try e cfg s)))"
    by (simp add: tally_execute_scan cleanup_only_def)
  have c: "tally (\<lambda>ev. ev = Call M_shutdown) (snd (execute_scan e cfg s))
     = tally (\<lambda>ev. ev = Call M_shutdown) s + of_bool (scanner (snd (execute_scan_try e cfg s)))"
    by (simp add: tally_execute_scan cleanup_only_def)
  have d: "tally (\<lambda>ev. ev = Call M_stop_container) (snd (execute_scan e cfg s))
     = tally (\<lambda>ev. ev = Call M_stop_container) s
       + of_bool (scanner (snd (execute_scan_try e cfg s)))"
    by (simp add: tally_execute_scan cleanup_only_def)
  have f: "fst (execute_scan e cfg s) = fst (execute_scan_try e cfg s)"
    by (simp add: execute_scan_unfold)
  have g: "get_scan_results (snd (execute_scan e cfg s))
             = get_scan_results (snd (execute_scan_try e cfg s))"
    unfolding get_scan_results_def execute_scan_unfold snd_conv
    by (rule results_cleanup [OF prod.collapse [symmetric]])
  from a b c d f g show ?thesis by (simp only: simp_thms)
qed

lemma no_image_try:
  "(case fst (execute_scan_try no_image example_config initial_state) of
      Inl err \<Rightarrow> err = DockerException (Msg ''pull access denied'')
    | Inr res \<Rightarrow> False) \<and>
   scanner (snd (execute_scan_try no_image example_config initial_state))"
  by code_simp

lemma no_image_cleanup_log:
  "filter (\<lambda>ev. case ev of Log l m \<Rightarrow> True | _ \<Rightarrow> False)
     (trace (snd (execute_scan no_image example_config initial_state)))
   = [Log Error ''Failed to start ZAP container'', Log Error ''Scan execution failed'',
      Log Error ''Error saving logs'', Log Warning ''Error during ZAP shutdown'']"
  by code_simp

lemma no_image_status:
  "res_status (get_scan_results (snd (execute_scan_try no_image example_config initial_state)))
     = Some ''failed''"
  by code_simp

text \<open>
  A run in which the image cannot be pulled, the log file cannot be written and the engine
  does not answer the shutdown request: \<open>_cleanup\<close> and its three steps are entered once
  each, and the run still raises the Docker error and reports the status \<open>failed\<close>.
\<close>

theorem execute_scan_cleanup_once_witness:
  "tally (\<lambda>ev. ev = Call M_cleanup) (snd (execute_scan no_image example_config initial_state)) = 1 \<and>
   tally (\<lambda>ev. ev = Call M_get_container_logs)
     (snd (execute_scan no_image example_config initial_state)) = 1 \<and>
   tally (\<lambda>ev. ev = Call M_shutdown) (snd (execute_scan no_image example_config initial_state)) = 1 \<and>
   tally (\<lambda>ev. ev = Call M_stop_container)
     (snd (execute_scan no_image example_config initial_state)) = 1 \<and>
   (case fst (execute_scan no_image example_config initial_state) of
      Inl err \<Rightarrow> err = DockerException (Msg ''pull access denied'')
    | Inr res \<Rightarrow> False) \<and>
   res_status (get_scan_results (snd (execute_scan no_image example_config initial_state)))
     = Some ''failed''"
  using execute_scan_cleanup_once [of no_image example_config initial_state]
    no_image_try no_image_status
  by (simp add: tally_def initial_state_def)

end
